theory Spec2Isabelle
  imports Complex_Main "HOL-Library.Word" "HOL-Library.List_Lexorder" "HOL-Library.Product_Lexorder"
begin

section \<open>JavaScript strings\<close>

text \<open>
  A JavaScript string is a sequence of UTF-16 code units; \<open>length\<close> counts code units,
  as \<open>text.length\<close> does. String literals of the handlers are written \<open>js ''...''\<close>.
\<close>

type_synonym jschar = "16 word"
type_synonym jsstring = "jschar list"

definition js :: "string \<Rightarrow> jsstring" where
  "js s = map of_char s"

text \<open>
  \<open>String.prototype.trim\<close> removes WhiteSpace and LineTerminator code points from both
  ends: TAB, LF, VT, FF, CR, SP, NBSP, U+1680, U+2000..U+200A, U+2028, U+2029, U+202F,
  U+205F, U+3000 and U+FEFF.
\<close>

definition is_js_whitespace :: "jschar \<Rightarrow> bool" where
  "is_js_whitespace c \<longleftrightarrow>
     c = 0x09 \<or> c = 0x0A \<or> c = 0x0B \<or> c = 0x0C \<or> c = 0x0D \<or> c = 0x20 \<or> c = 0xA0 \<or>
     c = 0x1680 \<or> (0x2000 \<le> c \<and> c \<le> 0x200A) \<or> c = 0x2028 \<or> c = 0x2029 \<or>
     c = 0x202F \<or> c = 0x205F \<or> c = 0x3000 \<or> c = 0xFEFF"

definition trim :: "jsstring \<Rightarrow> jsstring" where
  "trim s = rev (dropWhile is_js_whitespace (rev (dropWhile is_js_whitespace s)))"

definition is_digit :: "jschar \<Rightarrow> bool" where
  "is_digit c \<longleftrightarrow> 0x30 \<le> c \<and> c \<le> 0x39"

definition hex_val :: "jschar \<Rightarrow> nat option" where
  "hex_val c =
     (if 0x30 \<le> c \<and> c \<le> 0x39 then Some (unat c - 48)
      else if 0x61 \<le> c \<and> c \<le> 0x66 then Some (unat c - 87)
      else if 0x41 \<le> c \<and> c \<le> 0x46 then Some (unat c - 55)
      else None)"

text \<open>The value of a run of digits in the given radix (only ever applied to digits of that radix).\<close>

definition digit_val :: "jschar \<Rightarrow> nat" where
  "digit_val c = (case hex_val c of None \<Rightarrow> 0 | Some d \<Rightarrow> d)"

definition digits_val :: "nat \<Rightarrow> jsstring \<Rightarrow> nat" where
  "digits_val radix ds = foldl (\<lambda>a c. radix * a + digit_val c) 0 ds"

section \<open>JSON values, \<open>JSON.parse\<close>\<close>

text \<open>
  The values \<open>JSON.parse\<close> can return. A number is kept as the exact rational its
  literal denotes; the handlers only ever test a parsed number for truthiness. An object
  is the list of its properties in insertion order, with distinct names.
\<close>

datatype json =
    JNull
  | JBool bool
  | JNum rat
  | JStr jsstring
  | JArr "json list"
  | JObj "(jsstring \<times> json) list"

text \<open>
  \<open>!v\<close> is \<open>\<not> truthy v\<close>. A number literal is read as the nearest IEEE double, which is
  zero exactly when the literal's magnitude is at most \<open>2 ^ -1075\<close> (half the smallest
  subnormal, ties to even); every other parsed number, infinite ones included, is truthy.
\<close>

fun truthy :: "json \<Rightarrow> bool" where
  "truthy JNull = False"
| "truthy (JBool b) = b"
| "truthy (JNum q) = (\<bar>q\<bar> > 1 / 2 ^ 1075)"
| "truthy (JStr s) = (s \<noteq> [])"
| "truthy (JArr xs) = True"
| "truthy (JObj m) = True"

text \<open>A JavaScript value that may be \<open>undefined\<close> is a \<open>json option\<close>.\<close>

fun truthy_opt :: "json option \<Rightarrow> bool" where
  "truthy_opt None = False"
| "truthy_opt (Some v) = truthy v"

text \<open>
  Reading a property named by a handler (\<open>postId\<close>, \<open>text\<close>) off a parsed value: an own
  property of an object, \<open>undefined\<close> on a boolean, number, string or array (their
  prototypes have no property of those names). On \<open>null\<close> the read throws a TypeError,
  which the caller models.
\<close>

fun get_prop :: "json \<Rightarrow> jsstring \<Rightarrow> json option" where
  "get_prop (JObj m) k = map_of m k"
| "get_prop _ k = None"

text \<open>
  Defining a property while an object literal is parsed: a duplicate name keeps its first
  position and takes the later value.
\<close>

fun obj_put :: "(jsstring \<times> json) list \<Rightarrow> jsstring \<Rightarrow> json \<Rightarrow> (jsstring \<times> json) list" where
  "obj_put [] k v = [(k, v)]"
| "obj_put ((k', v') # m) k v = (if k' = k then (k, v) # m else (k', v') # obj_put m k v)"

subsection \<open>Tokens\<close>

datatype token =
    TLBrace | TRBrace | TLBracket | TRBracket | TColon | TComma
  | TString jsstring | TNumber rat | TTrue | TFalse | TNull

definition is_json_ws :: "jschar \<Rightarrow> bool" where
  "is_json_ws c \<longleftrightarrow> c = 0x20 \<or> c = 0x09 \<or> c = 0x0A \<or> c = 0x0D"

text \<open>The characters after a backslash inside a string literal: the decoded code unit and the rest.\<close>

definition lex_escape :: "jsstring \<Rightarrow> (jschar \<times> jsstring) option" where
  "lex_escape cs =
     (case cs of
        [] \<Rightarrow> None
      | e # r \<Rightarrow>
          if e = 0x22 then Some (0x22, r)
          else if e = 0x5C then Some (0x5C, r)
          else if e = 0x2F then Some (0x2F, r)
          else if e = 0x62 then Some (0x08, r)
          else if e = 0x66 then Some (0x0C, r)
          else if e = 0x6E then Some (0x0A, r)
          else if e = 0x72 then Some (0x0D, r)
          else if e = 0x74 then Some (0x09, r)
          else if e = 0x75 then
            (case r of
               h1 # h2 # h3 # h4 # r' \<Rightarrow>
                 (case (hex_val h1, hex_val h2, hex_val h3, hex_val h4) of
                    (Some a, Some b, Some c, Some d) \<Rightarrow>
                      Some (of_nat (((a * 16 + b) * 16 + c) * 16 + d), r')
                  | _ \<Rightarrow> None)
             | _ \<Rightarrow> None)
          else None)"

lemma lex_escape_shorter: "lex_escape cs = Some (d, r) \<Longrightarrow> length r < length cs"
  by (auto simp: lex_escape_def split: list.splits if_splits option.splits)

text \<open>A string literal after its opening quote: its value and the input after the closing quote.\<close>

function lex_string :: "jsstring \<Rightarrow> (jsstring \<times> jsstring) option" where
  "lex_string [] = None"
| "lex_string (c # cs) =
     (if c = 0x22 then Some ([], cs)
      else if c = 0x5C then
        (case lex_escape cs of
           None \<Rightarrow> None
         | Some (d, r) \<Rightarrow>
             (case lex_string r of None \<Rightarrow> None | Some (s, r') \<Rightarrow> Some (d # s, r')))
      else if c < 0x20 then None
      else (case lex_string cs of None \<Rightarrow> None | Some (s, r') \<Rightarrow> Some (c # s, r')))"
  by pat_completeness auto
termination
  by (relation "measure length") (auto dest: lex_escape_shorter)

lemma lex_string_shorter: "lex_string cs = Some (s, r) \<Longrightarrow> length r < length cs"
proof (induction cs arbitrary: s r rule: lex_string.induct)
  case 1
  then show ?case by simp
next
  case (2 c cs)
  then show ?case
    by (fastforce split: if_splits option.splits dest: lex_escape_shorter)
qed

text \<open>
  A number literal: \<open>-? (0 | [1-9][0-9]*) (. [0-9]+)? ([eE] [+-]? [0-9]+)?\<close>, with its
  exact value.
\<close>

definition lex_exponent :: "jsstring \<Rightarrow> (int \<times> jsstring) option" where
  "lex_exponent cs =
     (case cs of
        [] \<Rightarrow> Some (0, cs)
      | e # r \<Rightarrow>
          if e = 0x65 \<or> e = 0x45 then
            (let (neg, r1) =
                   (case r of
                      [] \<Rightarrow> (False, r)
                    | s # r' \<Rightarrow> if s = 0x2D then (True, r') else if s = 0x2B then (False, r') else (False, r));
                 ds = takeWhile is_digit r1
             in if ds = [] then None
                else Some ((if neg then - int (digits_val 10 ds) else int (digits_val 10 ds)),
                           dropWhile is_digit r1))
          else Some (0, cs))"

definition lex_fraction :: "jsstring \<Rightarrow> (jsstring \<times> jsstring) option" where
  "lex_fraction cs =
     (case cs of
        [] \<Rightarrow> Some ([], cs)
      | p # r \<Rightarrow>
          if p = 0x2E then
            (let ds = takeWhile is_digit r
             in if ds = [] then None else Some (ds, dropWhile is_digit r))
          else Some ([], cs))"

definition lex_number :: "jsstring \<Rightarrow> (rat \<times> jsstring) option" where
  "lex_number cs =
     (let (neg, cs1) = (case cs of [] \<Rightarrow> (False, cs) | c # r \<Rightarrow> if c = 0x2D then (True, r) else (False, cs));
          ip = takeWhile is_digit cs1
      in if ip = [] \<or> (hd ip = 0x30 \<and> 1 < length ip) then None
         else
           (case lex_fraction (dropWhile is_digit cs1) of
              None \<Rightarrow> None
            | Some (fp, cs2) \<Rightarrow>
                (case lex_exponent cs2 of
                   None \<Rightarrow> None
                 | Some (ex, cs3) \<Rightarrow>
                     (let m = of_nat (digits_val 10 (ip @ fp)) / 10 ^ length fp;
                          v = (if 0 \<le> ex then m * 10 ^ nat ex else m / 10 ^ nat (- ex))
                      in Some ((if neg then - v else v), cs3)))))"

lemma lex_exponent_shorter: "lex_exponent cs = Some (e, r) \<Longrightarrow> length r \<le> length cs"
  by (auto simp: lex_exponent_def Let_def split: list.splits if_splits prod.splits
      intro: le_trans [OF length_dropWhile_le])

lemma lex_fraction_shorter: "lex_fraction cs = Some (f, r) \<Longrightarrow> length r \<le> length cs"
  by (auto simp: lex_fraction_def Let_def split: list.splits if_splits
      intro: le_trans [OF length_dropWhile_le])

lemma dropWhile_shorter: "takeWhile P xs \<noteq> [] \<Longrightarrow> length (dropWhile P xs) < length xs"
  by (cases xs) (auto intro: le_imp_less_Suc length_dropWhile_le split: if_splits)

lemma lex_number_shorter:
  assumes "lex_number cs = Some (q, r)"
  shows "length r < length cs"
proof -
  obtain neg cs1 where c1:
    "(case cs of [] \<Rightarrow> (False, cs) | c # r \<Rightarrow> if c = 0x2D then (True, r) else (False, cs)) = (neg, cs1)"
    by (cases "case cs of [] \<Rightarrow> (False, cs) | c # r \<Rightarrow> if c = 0x2D then (True, r) else (False, cs)")
  then have l1: "length cs1 \<le> length cs"
    by (auto split: list.splits if_splits)
  from assms c1 have ne: "takeWhile is_digit cs1 \<noteq> []"
    by (auto simp: lex_number_def Let_def split: if_splits)
  from assms c1 ne obtain fp cs2 ex where
    f: "lex_fraction (dropWhile is_digit cs1) = Some (fp, cs2)" and e: "lex_exponent cs2 = Some (ex, r)"
    by (auto simp: lex_number_def Let_def split: if_splits option.splits)
  have "length r \<le> length cs2" using e by (rule lex_exponent_shorter)
  also have "\<dots> \<le> length (dropWhile is_digit cs1)" using f by (rule lex_fraction_shorter)
  also have "\<dots> < length cs1" using ne by (rule dropWhile_shorter)
  finally show ?thesis using l1 by simp
qed

text \<open>The token sequence of a text, \<open>None\<close> where no token starts.\<close>

definition literal_rest :: "jsstring \<Rightarrow> jsstring \<Rightarrow> jsstring option" where
  "literal_rest w cs = (if take (length w) cs = w then Some (drop (length w) cs) else None)"

lemma literal_rest_shorter: "literal_rest w cs = Some r \<Longrightarrow> length r \<le> length cs"
  by (auto simp: literal_rest_def split: if_splits)

function lex :: "jsstring \<Rightarrow> token list option" where
  "lex [] = Some []"
| "lex (c # cs) =
     (if is_json_ws c then lex cs
      else if c = 0x7B then map_option (Cons TLBrace) (lex cs)
      else if c = 0x7D then map_option (Cons TRBrace) (lex cs)
      else if c = 0x5B then map_option (Cons TLBracket) (lex cs)
      else if c = 0x5D then map_option (Cons TRBracket) (lex cs)
      else if c = 0x3A then map_option (Cons TColon) (lex cs)
      else if c = 0x2C then map_option (Cons TComma) (lex cs)
      else if c = 0x22 then
        (case lex_string cs of
           None \<Rightarrow> None
         | Some (s, r) \<Rightarrow> map_option (Cons (TString s)) (lex r))
      else if c = 0x2D \<or> is_digit c then
        (case lex_number (c # cs) of
           None \<Rightarrow> None
         | Some (q, r) \<Rightarrow> map_option (Cons (TNumber q)) (lex r))
      else if c = 0x74 then
        (case literal_rest (js ''rue'') cs of
           None \<Rightarrow> None
         | Some r \<Rightarrow> map_option (Cons TTrue) (lex r))
      else if c = 0x66 then
        (case literal_rest (js ''alse'') cs of
           None \<Rightarrow> None
         | Some r \<Rightarrow> map_option (Cons TFalse) (lex r))
      else if c = 0x6E then
        (case literal_rest (js ''ull'') cs of
           None \<Rightarrow> None
         | Some r \<Rightarrow> map_option (Cons TNull) (lex r))
      else None)"
  by pat_completeness auto
termination
  by (relation "measure length")
    (auto dest: lex_string_shorter lex_number_shorter literal_rest_shorter)

subsection \<open>The grammar, as a pushdown automaton over the tokens\<close>

text \<open>
  A frame is a container whose next element is being read: an array with the elements
  before it, or an object with the members before it and the name of the member.
\<close>

datatype frame =
    FArr "json list"
  | FObj "(jsstring \<times> json) list" jsstring

datatype pstate =
    Value "frame list"
  | ArrFirst "frame list"
  | ObjFirst "frame list"
  | ObjKey "(jsstring \<times> json) list" "frame list"
  | ObjColon "(jsstring \<times> json) list" jsstring "frame list"
  | AfterArr "json list" "frame list"
  | AfterObj "(jsstring \<times> json) list" "frame list"
  | Done json

text \<open>A value is complete: it is the result, or the next element of the innermost container.\<close>

fun complete :: "json \<Rightarrow> frame list \<Rightarrow> pstate" where
  "complete v [] = Done v"
| "complete v (FArr xs # st) = AfterArr (xs @ [v]) st"
| "complete v (FObj m k # st) = AfterObj (obj_put m k v) st"

fun value_step :: "frame list \<Rightarrow> token \<Rightarrow> pstate option" where
  "value_step st (TString s) = Some (complete (JStr s) st)"
| "value_step st (TNumber q) = Some (complete (JNum q) st)"
| "value_step st TTrue = Some (complete (JBool True) st)"
| "value_step st TFalse = Some (complete (JBool False) st)"
| "value_step st TNull = Some (complete JNull st)"
| "value_step st TLBracket = Some (ArrFirst st)"
| "value_step st TLBrace = Some (ObjFirst st)"
| "value_step st _ = None"

fun step :: "pstate \<Rightarrow> token \<Rightarrow> pstate option" where
  "step (Value st) t = value_step st t"
| "step (ArrFirst st) t = (if t = TRBracket then Some (complete (JArr []) st) else value_step (FArr [] # st) t)"
| "step (ObjFirst st) t =
     (case t of TRBrace \<Rightarrow> Some (complete (JObj []) st) | TString k \<Rightarrow> Some (ObjColon [] k st) | _ \<Rightarrow> None)"
| "step (ObjKey m st) t = (case t of TString k \<Rightarrow> Some (ObjColon m k st) | _ \<Rightarrow> None)"
| "step (ObjColon m k st) t = (if t = TColon then Some (Value (FObj m k # st)) else None)"
| "step (AfterArr xs st) t =
     (case t of TComma \<Rightarrow> Some (Value (FArr xs # st)) | TRBracket \<Rightarrow> Some (complete (JArr xs) st) | _ \<Rightarrow> None)"
| "step (AfterObj m st) t =
     (case t of TComma \<Rightarrow> Some (ObjKey m st) | TRBrace \<Rightarrow> Some (complete (JObj m) st) | _ \<Rightarrow> None)"
| "step (Done v) t = None"

fun run :: "pstate \<Rightarrow> token list \<Rightarrow> pstate option" where
  "run p [] = Some p"
| "run p (t # ts) = (case step p t of None \<Rightarrow> None | Some p' \<Rightarrow> run p' ts)"

text \<open>\<open>JSON.parse(s)\<close>: the value, or \<open>None\<close> where it throws a SyntaxError.\<close>

definition JSON_parse :: "jsstring \<Rightarrow> json option" where
  "JSON_parse s =
     (case lex s of
        None \<Rightarrow> None
      | Some ts \<Rightarrow> (case run (Value []) ts of Some (Done v) \<Rightarrow> Some v | _ \<Rightarrow> None))"

section \<open>Data model\<close>

text \<open>
  A comment as \<open>createComment\<close> builds it and the comments table stores it. \<open>postId\<close> is
  whatever truthy value the request body carried; every other field is a string.
\<close>

record comment =
  c_id :: jsstring
  c_postId :: json
  c_userId :: jsstring
  c_username :: jsstring
  c_text :: jsstring
  c_createdAt :: jsstring

text \<open>What a handler can throw inside its \<open>try\<close> block; \<open>StorageError\<close> is a rejected store call.\<close>

datatype js_error = SyntaxError | TypeError | URIError | EnvError | StorageError

text \<open>
  An API Gateway response. The body is kept as the value handed to \<open>JSON.stringify\<close>;
  the three headers are the same constants on every path and are left out.
\<close>

datatype response_body =
    ValidationError string
  | InternalServerError string js_error
  | CommentBody comment
  | CommentsBody "comment list" "jsstring option"

record response =
  statusCode :: nat
  body :: response_body

definition validation_error :: "string \<Rightarrow> response" where
  "validation_error msg = \<lparr>statusCode = 400, body = ValidationError msg\<rparr>"

definition internal_error :: "string \<Rightarrow> js_error \<Rightarrow> response" where
  "internal_error msg e = \<lparr>statusCode = 500, body = InternalServerError msg e\<rparr>"

text \<open>\<open>process.env\<close>: the table name, \<open>None\<close> when the variable is unset.\<close>

record env =
  COMMENTS_TABLE_NAME :: "jsstring option"

section \<open>\<open>createComment\<close>\<close>

record user =
  user_id :: jsstring
  user_username :: jsstring

record create_event =
  ev_body :: "jsstring option"
  ev_user :: "user option"

record put_command =
  put_TableName :: jsstring
  put_Item :: comment

text \<open>
  The \<open>try\<close> block of the handler. \<open>send\<close> is \<open>ddbDocClient.send\<close> on a \<open>PutCommand\<close>:
  it takes the store's state and returns the new one, or rejects. \<open>commentId\<close> and
  \<open>timestamp\<close> are what \<open>uuidv4()\<close> and \<open>new Date().toISOString()\<close> return in this call.
  \<open>Inl\<close> is a throw.
\<close>

definition createComment_try ::
  "env \<Rightarrow> (put_command \<Rightarrow> 'db \<Rightarrow> js_error + 'db) \<Rightarrow> jsstring \<Rightarrow> jsstring \<Rightarrow> create_event \<Rightarrow> 'db
     \<Rightarrow> js_error + (response \<times> 'db)" where
  "createComment_try env send commentId timestamp event db =
     (case ev_body event of
        None \<Rightarrow> Inr (validation_error ''Missing request body'', db)
      | Some b \<Rightarrow>
          if b = [] then Inr (validation_error ''Missing request body'', db)
          else
            (case JSON_parse b of
               None \<Rightarrow> Inl SyntaxError
             | Some parsed \<Rightarrow>
                 if parsed = JNull then Inl TypeError
                 else
                 (let postId = get_prop parsed (js ''postId'');
                      text = get_prop parsed (js ''text'')
                  in if \<not> truthy_opt postId then
                       Inr (validation_error ''Post ID is required'', db)
                     else if \<not> truthy_opt text then
                       Inr (validation_error ''Comment text is required'', db)
                     else
                       (case (postId, text) of
                          (Some p, Some (JStr t)) \<Rightarrow>
                            if trim t = [] then
                              Inr (validation_error ''Comment text cannot be empty or contain only whitespace'', db)
                            else if 280 < length t then
                              Inr (validation_error ''Comment text cannot exceed 280 characters'', db)
                            else
                              (case COMMENTS_TABLE_NAME env of
                                 None \<Rightarrow> Inl EnvError
                               | Some commentsTableName \<Rightarrow>
                                   if commentsTableName = [] then Inl EnvError
                                   else
                                     (case ev_user event of
                                        None \<Rightarrow> Inl TypeError
                                      | Some u \<Rightarrow>
                                          (let comment =
                                                 \<lparr>c_id = commentId, c_postId = p, c_userId = user_id u,
                                                  c_username = user_username u, c_text = trim t,
                                                  c_createdAt = timestamp\<rparr>
                                           in case send \<lparr>put_TableName = commentsTableName, put_Item = comment\<rparr> db of
                                                Inl e \<Rightarrow> Inl e
                                              | Inr db' \<Rightarrow> Inr (\<lparr>statusCode = 201, body = CommentBody comment\<rparr>, db'))))
                        | _ \<Rightarrow> Inl TypeError))))"

text \<open>The handler: the \<open>catch\<close> turns every throw into a 500 and leaves the store as it was.\<close>

definition createComment ::
  "env \<Rightarrow> (put_command \<Rightarrow> 'db \<Rightarrow> js_error + 'db) \<Rightarrow> jsstring \<Rightarrow> jsstring \<Rightarrow> create_event \<Rightarrow> 'db
     \<Rightarrow> response \<times> 'db" where
  "createComment env send commentId timestamp event db =
     (case createComment_try env send commentId timestamp event db of
        Inl e \<Rightarrow> (internal_error ''Error creating comment'' e, db)
      | Inr r \<Rightarrow> r)"

text \<open>
  A store to run the handler against in examples: the comments table as the list of its
  items, where a put replaces the item of the same \<open>id\<close> and always succeeds.
\<close>

definition table_put :: "put_command \<Rightarrow> comment list \<Rightarrow> js_error + comment list" where
  "table_put cmd table = Inr (filter (\<lambda>c. c_id c \<noteq> c_id (put_Item cmd)) table @ [put_Item cmd])"

section \<open>More built-ins: \<open>parseInt\<close>, URI coding, \<open>JSON.stringify\<close>\<close>

subsection \<open>\<open>parseInt\<close>\<close>

definition is_radix_digit :: "nat \<Rightarrow> jschar \<Rightarrow> bool" where
  "is_radix_digit radix c = (case hex_val c of None \<Rightarrow> False | Some d \<Rightarrow> d < radix)"

text \<open>
  \<open>parseInt(x)\<close> with no radix, \<open>None\<close> for NaN: \<open>undefined\<close> is read as the string
  "undefined"; leading white space and one sign are skipped, a \<open>0x\<close> prefix selects radix
  16, and the longest run of digits is the value. (JavaScript rounds a value beyond
  \<open>2 ^ 53\<close> to a double; the model keeps the integer.)
\<close>

definition parseInt :: "jsstring option \<Rightarrow> int option" where
  "parseInt arg =
     (let s = dropWhile is_js_whitespace (case arg of None \<Rightarrow> js ''undefined'' | Some x \<Rightarrow> x);
          (sign, s1) =
            (case s of
               [] \<Rightarrow> (1, s)
             | c # r \<Rightarrow> if c = 0x2D then (- 1, r) else if c = 0x2B then (1, r) else (1, s));
          (radix, s2) =
            (case s1 of
               a # b # r \<Rightarrow> if a = 0x30 \<and> (b = 0x78 \<or> b = 0x58) then (16, r) else (10, s1)
             | _ \<Rightarrow> (10, s1));
          z = takeWhile (is_radix_digit radix) s2
      in if z = [] then None else Some (sign * int (digits_val radix z)))"

subsection \<open>UTF-16 and UTF-8\<close>

definition is_high_surrogate :: "jschar \<Rightarrow> bool" where
  "is_high_surrogate c \<longleftrightarrow> 0xD800 \<le> c \<and> c \<le> 0xDBFF"

definition is_low_surrogate :: "jschar \<Rightarrow> bool" where
  "is_low_surrogate c \<longleftrightarrow> 0xDC00 \<le> c \<and> c \<le> 0xDFFF"

definition pair_code_point :: "jschar \<Rightarrow> jschar \<Rightarrow> nat" where
  "pair_code_point hi lo = (unat hi - 0xD800) * 0x400 + (unat lo - 0xDC00) + 0x10000"

definition utf16_encode :: "nat \<Rightarrow> jsstring" where
  "utf16_encode cp =
     (if cp < 0x10000 then [of_nat cp]
      else [of_nat (0xD800 + (cp - 0x10000) div 0x400), of_nat (0xDC00 + (cp - 0x10000) mod 0x400)])"

definition utf8_encode :: "nat \<Rightarrow> nat list" where
  "utf8_encode cp =
     (if cp < 0x80 then [cp]
      else if cp < 0x800 then [0xC0 + cp div 64, 0x80 + cp mod 64]
      else if cp < 0x10000 then [0xE0 + cp div 4096, 0x80 + cp div 64 mod 64, 0x80 + cp mod 64]
      else [0xF0 + cp div 262144, 0x80 + cp div 4096 mod 64, 0x80 + cp div 64 mod 64, 0x80 + cp mod 64])"

definition is_continuation :: "nat \<Rightarrow> bool" where
  "is_continuation b \<longleftrightarrow> 0x80 \<le> b \<and> b < 0xC0"

text \<open>
  The code point of a well-formed UTF-8 sequence of two to four octets: continuation
  octets in \<open>80..BF\<close>, no overlong form, no surrogate, nothing beyond \<open>U+10FFFF\<close>.
\<close>

fun utf8_decode :: "nat list \<Rightarrow> nat option" where
  "utf8_decode [b0, b1] =
     (let cp = (b0 - 0xC0) * 64 + (b1 - 0x80)
      in if 0xC0 \<le> b0 \<and> b0 < 0xE0 \<and> is_continuation b1 \<and> 0x80 \<le> cp then Some cp else None)"
| "utf8_decode [b0, b1, b2] =
     (let cp = (b0 - 0xE0) * 4096 + (b1 - 0x80) * 64 + (b2 - 0x80)
      in if 0xE0 \<le> b0 \<and> b0 < 0xF0 \<and> is_continuation b1 \<and> is_continuation b2
            \<and> 0x800 \<le> cp \<and> \<not> (0xD800 \<le> cp \<and> cp < 0xE000)
         then Some cp else None)"
| "utf8_decode [b0, b1, b2, b3] =
     (let cp = (b0 - 0xF0) * 262144 + (b1 - 0x80) * 4096 + (b2 - 0x80) * 64 + (b3 - 0x80)
      in if 0xF0 \<le> b0 \<and> b0 < 0xF8 \<and> is_continuation b1 \<and> is_continuation b2 \<and> is_continuation b3
            \<and> 0x10000 \<le> cp \<and> cp < 0x110000
         then Some cp else None)"
| "utf8_decode _ = None"

subsection \<open>\<open>encodeURIComponent\<close>\<close>

definition is_unreserved :: "jschar \<Rightarrow> bool" where
  "is_unreserved c \<longleftrightarrow>
     (0x41 \<le> c \<and> c \<le> 0x5A) \<or> (0x61 \<le> c \<and> c \<le> 0x7A) \<or> (0x30 \<le> c \<and> c \<le> 0x39) \<or>
     c = 0x2D \<or> c = 0x5F \<or> c = 0x2E \<or> c = 0x21 \<or> c = 0x7E \<or> c = 0x2A \<or> c = 0x27 \<or>
     c = 0x28 \<or> c = 0x29"

definition hex_upper :: "nat \<Rightarrow> jschar" where
  "hex_upper d = (if d < 10 then of_nat (48 + d) else of_nat (55 + d))"

definition hex_lower :: "nat \<Rightarrow> jschar" where
  "hex_lower d = (if d < 10 then of_nat (48 + d) else of_nat (87 + d))"

definition percent_octet :: "nat \<Rightarrow> jsstring" where
  "percent_octet b = [0x25, hex_upper (b div 16), hex_upper (b mod 16)]"

definition percent_utf8 :: "nat \<Rightarrow> jsstring" where
  "percent_utf8 cp = concat (map percent_octet (utf8_encode cp))"

text \<open>\<open>encodeURIComponent(s)\<close>, \<open>None\<close> where it throws a URIError (an unpaired surrogate).\<close>

fun encodeURIComponent :: "jsstring \<Rightarrow> jsstring option" where
  "encodeURIComponent [] = Some []"
| "encodeURIComponent (c # cs) =
     (if is_unreserved c then map_option (Cons c) (encodeURIComponent cs)
      else if is_low_surrogate c then None
      else if is_high_surrogate c then
        (case cs of
           [] \<Rightarrow> None
         | d # ds \<Rightarrow>
             if is_low_surrogate d
             then map_option (append (percent_utf8 (pair_code_point c d))) (encodeURIComponent ds)
             else None)
      else map_option (append (percent_utf8 (unat c))) (encodeURIComponent cs))"

subsection \<open>\<open>decodeURIComponent\<close>\<close>

text \<open>An escape \<open>%XY\<close> at the head of the input: its octet and the rest.\<close>

definition hex_octet :: "jsstring \<Rightarrow> (nat \<times> jsstring) option" where
  "hex_octet cs =
     (case cs of
        p # a # b # r \<Rightarrow>
          if p = 0x25 then
            (case (hex_val a, hex_val b) of (Some x, Some y) \<Rightarrow> Some (16 * x + y, r) | _ \<Rightarrow> None)
          else None
      | _ \<Rightarrow> None)"

fun take_octets :: "nat \<Rightarrow> jsstring \<Rightarrow> (nat list \<times> jsstring) option" where
  "take_octets 0 cs = Some ([], cs)"
| "take_octets (Suc n) cs =
     (case hex_octet cs of
        None \<Rightarrow> None
      | Some (b, r) \<Rightarrow>
          (case take_octets n r of None \<Rightarrow> None | Some (bs, r') \<Rightarrow> Some (b # bs, r')))"

text \<open>The number of leading one bits of an octet, as far as the decoder tells them apart.\<close>

definition leading_ones :: "nat \<Rightarrow> nat" where
  "leading_ones b =
     (if b < 0x80 then 0 else if b < 0xC0 then 1 else if b < 0xE0 then 2
      else if b < 0xF0 then 3 else if b < 0xF8 then 4 else 5)"

lemma hex_octet_shorter: "hex_octet cs = Some (b, r) \<Longrightarrow> length r < length cs"
  by (auto simp: hex_octet_def split: list.splits if_splits option.splits)

lemma take_octets_shorter: "take_octets n cs = Some (bs, r) \<Longrightarrow> length r \<le> length cs"
proof (induction n arbitrary: cs bs)
  case 0
  then show ?case by simp
next
  case (Suc n)
  then show ?case
    by (fastforce split: option.splits dest: hex_octet_shorter)
qed

text \<open>\<open>decodeURIComponent(s)\<close>, \<open>None\<close> where it throws a URIError.\<close>

function decodeURIComponent :: "jsstring \<Rightarrow> jsstring option" where
  "decodeURIComponent [] = Some []"
| "decodeURIComponent (c # cs) =
     (if c \<noteq> 0x25 then map_option (Cons c) (decodeURIComponent cs)
      else
        (case hex_octet (c # cs) of
           None \<Rightarrow> None
         | Some (b, r) \<Rightarrow>
             if leading_ones b = 0 then map_option (Cons (of_nat b)) (decodeURIComponent r)
             else if leading_ones b = 1 \<or> 4 < leading_ones b then None
             else
               (case take_octets (leading_ones b - 1) r of
                  None \<Rightarrow> None
                | Some (bs, r') \<Rightarrow>
                    (case utf8_decode (b # bs) of
                       None \<Rightarrow> None
                     | Some cp \<Rightarrow> map_option (append (utf16_encode cp)) (decodeURIComponent r')))))"
  by pat_completeness auto
termination
proof (relation "measure length")
  show "wf (measure length)" by simp
next
  fix c :: jschar and cs
  show "(cs, c # cs) \<in> measure length" by simp
next
  fix c :: jschar and cs x2 b r
  assume "hex_octet (c # cs) = Some x2" "(b, r) = x2"
  then show "(r, c # cs) \<in> measure length"
    using hex_octet_shorter [of "c # cs" b r] by simp
next
  fix c :: jschar and cs x2 b r x2a bs r'
  assume "hex_octet (c # cs) = Some x2" "(b, r) = x2"
    "take_octets (leading_ones b - 1) r = Some x2a" "(bs, r') = x2a"
  then show "(r', c # cs) \<in> measure length"
    using hex_octet_shorter [of "c # cs" b r] take_octets_shorter [of "leading_ones b - 1" r bs r']
    by simp
qed

subsection \<open>\<open>JSON.stringify\<close> of a key\<close>

text \<open>
  A DynamoDB key as the document client returns it: the key attributes, each a string (all
  key attributes of the comments table and of its \<open>postId-index\<close> are of type S), in the
  object's property order.
\<close>

type_synonym ddb_key = "(jsstring \<times> jsstring) list"

definition key_to_json :: "ddb_key \<Rightarrow> json" where
  "key_to_json k = JObj (map (\<lambda>(a, v). (a, JStr v)) k)"

definition unicode_escape :: "jschar \<Rightarrow> jsstring" where
  "unicode_escape c =
     [0x5C, 0x75, hex_lower (unat c div 4096), hex_lower (unat c div 256 mod 16),
      hex_lower (unat c div 16 mod 16), hex_lower (unat c mod 16)]"

definition escape_unit :: "jschar \<Rightarrow> jsstring" where
  "escape_unit c =
     (if c = 0x08 then [0x5C, 0x62]
      else if c = 0x09 then [0x5C, 0x74]
      else if c = 0x0A then [0x5C, 0x6E]
      else if c = 0x0C then [0x5C, 0x66]
      else if c = 0x0D then [0x5C, 0x72]
      else if c = 0x22 then [0x5C, 0x22]
      else if c = 0x5C then [0x5C, 0x5C]
      else if c < 0x20 \<or> is_high_surrogate c \<or> is_low_surrogate c then unicode_escape c
      else [c])"

text \<open>The body of a quoted string: a surrogate pair is copied, a lone surrogate escaped.\<close>

fun json_escape :: "jsstring \<Rightarrow> jsstring" where
  "json_escape [] = []"
| "json_escape [c] = escape_unit c"
| "json_escape (c # d # ds) =
     (if is_high_surrogate c \<and> is_low_surrogate d then c # d # json_escape ds
      else escape_unit c @ json_escape (d # ds))"

definition json_quote :: "jsstring \<Rightarrow> jsstring" where
  "json_quote s = 0x22 # json_escape s @ [0x22]"

fun stringify_members :: "ddb_key \<Rightarrow> jsstring" where
  "stringify_members [] = []"
| "stringify_members [(a, v)] = json_quote a @ 0x3A # json_quote v"
| "stringify_members ((a, v) # m # ms) = json_quote a @ 0x3A # json_quote v @ 0x2C # stringify_members (m # ms)"

definition JSON_stringify_key :: "ddb_key \<Rightarrow> jsstring" where
  "JSON_stringify_key k = 0x7B # stringify_members k @ [0x7D]"


section \<open>\<open>getComments\<close>\<close>

record path_params =
  pp_postId :: "jsstring option"

record query_params =
  qp_limit :: "jsstring option"
  qp_lastKey :: "jsstring option"

record get_event =
  pathParameters :: "path_params option"
  queryStringParameters :: "query_params option"

text \<open>
  The \<open>QueryCommand\<close> input. \<open>q_postId\<close> is the value bound to \<open>:postId\<close> in the key
  condition \<open>postId = :postId\<close>; \<open>q_ExclusiveStartKey\<close> is \<open>None\<close> when the property is
  not set.
\<close>

record query_command =
  q_TableName :: jsstring
  q_IndexName :: string
  q_postId :: jsstring
  q_ScanIndexForward :: bool
  q_Limit :: int
  q_ExclusiveStartKey :: "json option"

record query_output =
  Items :: "comment list option"
  LastEvaluatedKey :: "ddb_key option"

text \<open>
  Lines 42 to 54: \<open>exclusiveStartKey\<close> stays \<open>null\<close> (\<open>None\<close>) when \<open>lastKey\<close> is missing
  or empty, when it decodes to the empty string, and when decoding or parsing throws.
\<close>

definition parse_lastKey :: "jsstring option \<Rightarrow> json option" where
  "parse_lastKey lastKey =
     (case lastKey of
        None \<Rightarrow> None
      | Some s \<Rightarrow>
          if s = [] then None
          else
            (case decodeURIComponent s of
               None \<Rightarrow> None
             | Some decodedKey \<Rightarrow>
                 if decodedKey = [] then None
                 else (case JSON_parse decodedKey of None \<Rightarrow> None | Some v \<Rightarrow> Some v)))"

text \<open>
  Line 69: \<open>exclusiveStartKey && typeof exclusiveStartKey === 'object' &&
  Object.keys(exclusiveStartKey).length > 0\<close>. An array is an object whose keys are its
  indices.
\<close>

fun is_start_key :: "json option \<Rightarrow> bool" where
  "is_start_key (Some (JObj m)) = (m \<noteq> [])"
| "is_start_key (Some (JArr xs)) = (xs \<noteq> [])"
| "is_start_key _ = False"

text \<open>Lines 38 to 71: the query built from the table name, the post id and the query string.\<close>

definition dbQueryParams :: "jsstring \<Rightarrow> jsstring \<Rightarrow> query_params \<Rightarrow> query_command" where
  "dbQueryParams commentsTableName postId queryParams =
     (let limit = (case parseInt (qp_limit queryParams) of None \<Rightarrow> 50 | Some n \<Rightarrow> if n = 0 then 50 else n);
          exclusiveStartKey = parse_lastKey (qp_lastKey queryParams)
      in \<lparr>q_TableName = commentsTableName, q_IndexName = ''postId-index'', q_postId = postId,
          q_ScanIndexForward = True, q_Limit = limit,
          q_ExclusiveStartKey = (if is_start_key exclusiveStartKey then exclusiveStartKey else None)\<rparr>)"

text \<open>Lines 80 to 89: the cursor returned with the page.\<close>

definition encode_lastKey :: "ddb_key option \<Rightarrow> jsstring option" where
  "encode_lastKey lastEvaluatedKey =
     (case lastEvaluatedKey of
        None \<Rightarrow> None
      | Some k \<Rightarrow> if k = [] then None else encodeURIComponent (JSON_stringify_key k))"

text \<open>
  The \<open>try\<close> block. \<open>send\<close> is \<open>ddbDocClient.send\<close> on a \<open>QueryCommand\<close>: the store's
  answer, or a rejection.
\<close>

definition getComments_try ::
  "env \<Rightarrow> (query_command \<Rightarrow> js_error + query_output) \<Rightarrow> get_event \<Rightarrow> js_error + response" where
  "getComments_try env send event =
     (case COMMENTS_TABLE_NAME env of
        None \<Rightarrow> Inl EnvError
      | Some commentsTableName \<Rightarrow>
          if commentsTableName = [] then Inl EnvError
          else
            (case (case pathParameters event of None \<Rightarrow> None | Some pp \<Rightarrow> pp_postId pp) of
               None \<Rightarrow> Inr (validation_error ''Post ID is required'')
             | Some postId \<Rightarrow>
                 if postId = [] then Inr (validation_error ''Post ID is required'')
                 else
                   (let queryParams =
                          (case queryStringParameters event of
                             None \<Rightarrow> \<lparr>qp_limit = None, qp_lastKey = None\<rparr>
                           | Some q \<Rightarrow> q)
                    in case send (dbQueryParams commentsTableName postId queryParams) of
                         Inl e \<Rightarrow> Inl e
                       | Inr result \<Rightarrow>
                           (let comments = (case Items result of None \<Rightarrow> [] | Some xs \<Rightarrow> xs);
                                encodedLastKey = encode_lastKey (LastEvaluatedKey result)
                            in Inr \<lparr>statusCode = 200, body = CommentsBody comments encodedLastKey\<rparr>))))"

definition getComments ::
  "env \<Rightarrow> (query_command \<Rightarrow> js_error + query_output) \<Rightarrow> get_event \<Rightarrow> response" where
  "getComments env send event =
     (case getComments_try env send event of
        Inl e \<Rightarrow> internal_error ''Error retrieving comments'' e
      | Inr r \<Rightarrow> r)"

section \<open>The store's query and the paging client\<close>

text \<open>
  The sort key of the specification: \<open>(createdAt, id)\<close>, compared lexicographically, each
  string by its code units.
\<close>

definition sort_position :: "comment \<Rightarrow> jsstring \<times> jsstring" where
  "sort_position c = (c_createdAt c, c_id c)"

definition partition_of :: "comment list \<Rightarrow> jsstring \<Rightarrow> comment list" where
  "partition_of table p = sort_key sort_position (filter (\<lambda>c. c_postId c = JStr p) table)"

definition key_of :: "jsstring \<Rightarrow> comment \<Rightarrow> ddb_key" where
  "key_of p c = [(js ''id'', c_id c), (js ''postId'', p), (js ''createdAt'', c_createdAt c)]"

fun start_position :: "json \<Rightarrow> (jsstring \<times> jsstring) option" where
  "start_position (JObj m) =
     (case (map_of m (js ''createdAt''), map_of m (js ''id'')) of
        (Some (JStr t), Some (JStr i)) \<Rightarrow> Some (t, i)
      | _ \<Rightarrow> None)"
| "start_position _ = None"

text \<open>
  Modelled from the spec: the store's Query on the comments table, which is a managed
  service and not part of the sources. Section 4.2 of the specification, steps 2 and 3:
  up to \<open>limit\<close> comments of the post, ascending by \<open>(createdAt, id)\<close>, strictly after the
  start position if there is one; the "more results" signal is given exactly when more
  items exist, and then names the last item returned. (The handlers' tests mock the store
  the same way: \<open>LastEvaluatedKey\<close> is set only while \<open>endIndex < totalComments\<close>.) A start
  key that names no position is rejected, a case the specification leaves open.
\<close>

definition ddb_query :: "comment list \<Rightarrow> query_command \<Rightarrow> js_error + query_output" where
  "ddb_query table q =
     (case (case q_ExclusiveStartKey q of
              None \<Rightarrow> Some (partition_of table (q_postId q))
            | Some k \<Rightarrow>
                (case start_position k of
                   None \<Rightarrow> None
                 | Some pos \<Rightarrow> Some (filter (\<lambda>c. pos < sort_position c) (partition_of table (q_postId q))))) of
        None \<Rightarrow> Inl StorageError
      | Some rest \<Rightarrow>
          (let page = take (nat (q_Limit q)) rest
           in Inr \<lparr>Items = Some page,
                   LastEvaluatedKey =
                     (if page \<noteq> [] \<and> length page < length rest
                      then Some (key_of (q_postId q) (last page)) else None)\<rparr>))"

text \<open>
  The client of the pagination tests (the cursor is handed back as it was received): call the handler, append the page, follow the
  returned cursor until there is none; \<open>maxPages\<close> bounds the number of calls. \<open>None\<close>
  when a call fails or the bound is reached first.
\<close>

definition page_request :: "jsstring \<Rightarrow> jsstring option \<Rightarrow> jsstring option \<Rightarrow> get_event" where
  "page_request postId limit lastKey =
     \<lparr>pathParameters = Some \<lparr>pp_postId = Some postId\<rparr>,
      queryStringParameters = Some \<lparr>qp_limit = limit, qp_lastKey = lastKey\<rparr>\<rparr>"


text \<open>
  The cursor a client holds after the comments \<open>seen\<close> of a post have been returned to it:
  none before the first page, otherwise the one encoding the last comment seen.
\<close>

definition cursor_after :: "jsstring \<Rightarrow> comment list \<Rightarrow> jsstring option" where
  "cursor_after postId seen =
     (if seen = [] then None else encode_lastKey (Some (key_of postId (last seen))))"


section \<open>Example requests\<close>

text \<open>The values the handlers' unit tests use.\<close>

definition example_env :: env where
  "example_env = \<lparr>COMMENTS_TABLE_NAME = Some (js ''CommentsTable'')\<rparr>"

definition example_user :: user where
  "example_user = \<lparr>user_id = js ''user-123'', user_username = js ''testuser''\<rparr>"

definition create_request :: "jsstring \<Rightarrow> create_event" where
  "create_request b = \<lparr>ev_body = Some b, ev_user = Some example_user\<rparr>"

definition example_id :: jsstring where "example_id = js ''comment-789''"

definition example_time :: jsstring where "example_time = js ''2024-01-01T10:00:00.000Z''"


definition example_comment :: "string \<Rightarrow> string \<Rightarrow> string \<Rightarrow> comment" where
  "example_comment i p t =
     \<lparr>c_id = js i, c_postId = JStr (js p), c_userId = js ''user-1'', c_username = js ''testuser1'',
      c_text = js ''Comment'', c_createdAt = js t\<rparr>"


definition boundary_table :: "comment list" where
  "boundary_table =
     [example_comment ''comment-0'' ''p2'' ''2024-01-01T00:00:00.000Z'',
      example_comment ''comment-1'' ''p2'' ''2024-01-01T00:00:01.000Z'',
      example_comment ''comment-2'' ''p2'' ''2024-01-01T00:00:02.000Z'',
      example_comment ''comment-3'' ''p2'' ''2024-01-01T00:00:03.000Z'',
      example_comment ''comment-4'' ''p2'' ''2024-01-01T00:00:04.000Z'']"

definition example_key :: ddb_key where
  "example_key = key_of (js ''post-123'') (example_comment ''comment-1'' ''post-123'' ''2024-01-01T10:00:00.000Z'')"


section \<open>Facts about the built-ins\<close>

lemma length_trim_le: "length (trim t) \<le> length t"
proof -
  have "length (dropWhile is_js_whitespace (rev (dropWhile is_js_whitespace t)))
          \<le> length (rev (dropWhile is_js_whitespace t))"
    by (rule length_dropWhile_le)
  also have "\<dots> \<le> length t"
    by (simp add: length_dropWhile_le)
  finally show ?thesis by (simp add: trim_def)
qed

lemma trim_Nil [simp]: "trim [] = []"
  by (simp add: trim_def)

lemma JSON_parse_Nil [simp]: "JSON_parse [] = None"
  by (simp add: JSON_parse_def)

subsection \<open>Hexadecimal digits\<close>

lemma unat_jschar_less: "unat (c :: jschar) < 65536"
  using unsigned_less [of c, where 'a = nat] by simp

lemma unat_of_nat_jschar: "n < 65536 \<Longrightarrow> unat (of_nat n :: jschar) = n"
  by (simp add: unat_of_nat)

lemma unat_hex_upper: "d < 16 \<Longrightarrow> unat (hex_upper d) = (if d < 10 then 48 + d else 55 + d)"
  by (simp add: hex_upper_def unat_of_nat_jschar del: of_nat_add)

lemma unat_hex_lower: "d < 16 \<Longrightarrow> unat (hex_lower d) = (if d < 10 then 48 + d else 87 + d)"
  by (simp add: hex_lower_def unat_of_nat_jschar del: of_nat_add)

lemma hex_val_hex_upper: "d < 16 \<Longrightarrow> hex_val (hex_upper d) = Some d"
  by (simp add: hex_val_def word_le_nat_alt unat_hex_upper)

lemma hex_val_hex_lower: "d < 16 \<Longrightarrow> hex_val (hex_lower d) = Some d"
  by (simp add: hex_val_def word_le_nat_alt unat_hex_lower)

lemma hex4_value:
  "((n div 4096 * 16 + n div 256 mod 16) * 16 + n div 16 mod 16) * 16 + n mod 16 = (n::nat)"
proof -
  have a: "n div 4096 = n div 256 div 16" by (simp add: div_mult2_eq)
  have b: "n div 256 = n div 16 div 16" by (simp add: div_mult2_eq)
  have "n div 4096 * 16 + n div 256 mod 16 = n div 256"
    unfolding a by simp
  moreover have "n div 256 * 16 + n div 16 mod 16 = n div 16"
    unfolding b by simp
  ultimately show ?thesis by simp
qed

lemma lex_escape_unicode:
  "lex_escape (tl (unicode_escape c) @ r) = Some (c, r)"
proof -
  let ?n = "unat c"
  have b: "?n div 4096 < 16" "?n div 256 mod 16 < 16" "?n div 16 mod 16 < 16" "?n mod 16 < 16"
    using unat_jschar_less [of c] by simp_all
  have "of_nat (((?n div 4096 * 16 + ?n div 256 mod 16) * 16 + ?n div 16 mod 16) * 16 + ?n mod 16) = c"
    using hex4_value [of ?n] by simp
  then show ?thesis
    by (simp add: lex_escape_def unicode_escape_def hex_val_hex_lower b)
qed


subsection \<open>\<open>JSON.parse\<close> after \<open>JSON.stringify\<close>\<close>

lemma surrogate_not_special:
  assumes "is_high_surrogate c \<or> is_low_surrogate c"
  shows "c \<noteq> 0x22" "c \<noteq> 0x5C" "\<not> c < 0x20"
  using assms
  by (auto simp: is_high_surrogate_def is_low_surrogate_def word_le_nat_alt word_less_nat_alt)

lemma unicode_escape_Cons: "unicode_escape c = 0x5C # tl (unicode_escape c)"
  by (simp add: unicode_escape_def)

lemma lex_string_escape_unit:
  "lex_string (escape_unit c @ r) =
     (case lex_string r of None \<Rightarrow> None | Some (s, r') \<Rightarrow> Some (c # s, r'))"
proof -
  have u: "lex_string (unicode_escape c @ r) =
     (case lex_string r of None \<Rightarrow> None | Some (s, r') \<Rightarrow> Some (c # s, r'))"
    by (subst unicode_escape_Cons) (simp add: lex_escape_unicode)
  consider (tab) "c = 0x08 \<or> c = 0x09 \<or> c = 0x0A \<or> c = 0x0C \<or> c = 0x0D \<or> c = 0x22 \<or> c = 0x5C"
    | (uni) "\<not> (c = 0x08 \<or> c = 0x09 \<or> c = 0x0A \<or> c = 0x0C \<or> c = 0x0D \<or> c = 0x22 \<or> c = 0x5C)"
        "c < 0x20 \<or> is_high_surrogate c \<or> is_low_surrogate c"
    | (lit) "\<not> (c = 0x08 \<or> c = 0x09 \<or> c = 0x0A \<or> c = 0x0C \<or> c = 0x0D \<or> c = 0x22 \<or> c = 0x5C)"
        "\<not> (c < 0x20 \<or> is_high_surrogate c \<or> is_low_surrogate c)"
    by blast
  then show ?thesis
  proof cases
    case tab
    then show ?thesis
      by (auto simp: escape_unit_def lex_escape_def)
  next
    case uni
    then show ?thesis
      using u by (simp add: escape_unit_def)
  next
    case lit
    then show ?thesis
      by (simp add: escape_unit_def)
  qed
qed

lemma lex_string_json_escape:
  "lex_string (json_escape s @ 0x22 # r) = Some (s, r)"
proof (induction s rule: json_escape.induct)
  case 1
  then show ?case by simp
next
  case (2 c)
  then show ?case by (simp add: lex_string_escape_unit)
next
  case (3 c d ds)
  show ?case
  proof (cases "is_high_surrogate c \<and> is_low_surrogate d")
    case True
    then show ?thesis
      using 3 surrogate_not_special [of c] surrogate_not_special [of d] by simp
  next
    case False
    then have "json_escape (c # d # ds) = escape_unit c @ json_escape (d # ds)"
      by auto
    then show ?thesis
      using 3(2) [OF False] by (simp add: lex_string_escape_unit del: json_escape.simps lex_string.simps)
  qed
qed

lemma json_quote_not_ws: "\<not> is_json_ws 0x22"
  by (simp add: is_json_ws_def)

lemma lex_json_quote:
  "lex (json_quote s @ r) = map_option (Cons (TString s)) (lex r)"
  by (simp add: json_quote_def is_json_ws_def lex_string_json_escape)


fun member_tokens :: "ddb_key \<Rightarrow> token list" where
  "member_tokens [] = []"
| "member_tokens [(a, v)] = [TString a, TColon, TString v]"
| "member_tokens ((a, v) # m # ms) = TString a # TColon # TString v # TComma # member_tokens (m # ms)"

lemma lex_punctuation:
  "lex (0x3A # cs) = map_option (Cons TColon) (lex cs)"
  "lex (0x2C # cs) = map_option (Cons TComma) (lex cs)"
  "lex (0x7B # cs) = map_option (Cons TLBrace) (lex cs)"
  "lex (0x7D # cs) = map_option (Cons TRBrace) (lex cs)"
  by (simp_all add: is_json_ws_def)

lemma lex_members:
  "lex (stringify_members k @ r) = map_option (append (member_tokens k)) (lex r)"
proof (induction k rule: stringify_members.induct)
  case 1
  then show ?case by (simp add: option.map_ident)
next
  case (2 a v)
  then show ?case
    by (simp add: lex_json_quote lex_punctuation option.map_comp comp_def del: lex.simps)
next
  case (3 a v m ms)
  then show ?case
    by (simp add: lex_json_quote lex_punctuation option.map_comp comp_def del: lex.simps)
qed

lemma lex_stringify_key:
  "lex (JSON_stringify_key k) = Some (TLBrace # member_tokens k @ [TRBrace])"
proof -
  have "lex [0x7D] = Some [TRBrace]" by (simp add: is_json_ws_def)
  then show ?thesis
    unfolding JSON_stringify_key_def
    by (simp add: lex_punctuation(3) lex_members del: lex.simps)
qed

lemma obj_put_fresh: "k \<notin> fst ` set m \<Longrightarrow> obj_put m k v = m @ [(k, v)]"
  by (induction m) auto

lemma run_members:
  assumes "k \<noteq> []" and "distinct (map fst k)" and "fst ` set k \<inter> fst ` set acc = {}"
  shows "run (ObjKey acc st) (member_tokens k @ TRBrace # ts)
           = run (complete (JObj (acc @ map (\<lambda>(a, v). (a, JStr v)) k)) st) ts"
  using assms
proof (induction k arbitrary: acc rule: member_tokens.induct)
  case 1
  then show ?case by simp
next
  case (2 a v)
  then have "a \<notin> fst ` set acc" by auto
  then show ?case by (simp add: obj_put_fresh)
next
  case (3 a v m ms)
  from 3(3,4) have f: "a \<notin> fst ` set acc" by auto
  have d: "distinct (map fst (m # ms))" using 3(3) by simp
  have i: "fst ` set (m # ms) \<inter> fst ` set (acc @ [(a, JStr v)]) = {}"
    using 3(3,4) by auto
  have "run (ObjKey acc st) (member_tokens ((a, v) # m # ms) @ TRBrace # ts)
      = run (ObjKey (acc @ [(a, JStr v)]) st) (member_tokens (m # ms) @ TRBrace # ts)"
    using f by (simp add: obj_put_fresh)
  also have "\<dots> = run (complete (JObj ((acc @ [(a, JStr v)]) @ map (\<lambda>(a, v). (a, JStr v)) (m # ms))) st) ts"
    by (rule 3(1) [OF _ d i]) simp
  finally show ?case by simp
qed

lemma run_first_member:
  "k \<noteq> [] \<Longrightarrow> run (ObjFirst st) (member_tokens k @ ts) = run (ObjKey [] st) (member_tokens k @ ts)"
  by (induction k rule: member_tokens.induct) simp_all

lemma JSON_parse_stringify_key:
  assumes "distinct (map fst k)"
  shows "JSON_parse (JSON_stringify_key k) = Some (key_to_json k)"
proof (cases "k = []")
  case True
  then show ?thesis
    by (simp add: JSON_parse_def lex_stringify_key key_to_json_def)
next
  case False
  have "run (Value []) (TLBrace # member_tokens k @ [TRBrace])
      = run (ObjFirst []) (member_tokens k @ [TRBrace])" by simp
  also have "\<dots> = run (ObjKey [] []) (member_tokens k @ [TRBrace])"
    using False by (rule run_first_member)
  also have "\<dots> = run (complete (JObj ([] @ map (\<lambda>(a, v). (a, JStr v)) k)) []) []"
    by (rule run_members [OF False assms]) simp
  finally show ?thesis
    by (simp add: JSON_parse_def lex_stringify_key key_to_json_def)
qed

subsection \<open>\<open>decodeURIComponent\<close> after \<open>encodeURIComponent\<close>\<close>

lemma hex_octet_percent_octet:
  assumes "b < 256"
  shows "hex_octet (percent_octet b @ r) = Some (b, r)"
proof -
  have "b div 16 < 16" "b mod 16 < 16" using assms by simp_all
  then show ?thesis
    by (simp add: hex_octet_def percent_octet_def hex_val_hex_upper)
qed

lemma percent_octet_Cons: "percent_octet b @ r = 0x25 # tl (percent_octet b) @ r"
  by (simp add: percent_octet_def)

lemma decode_percent_octet:
  assumes "b < 256"
  shows "decodeURIComponent (percent_octet b @ r) =
     (if leading_ones b = 0 then map_option (Cons (of_nat b)) (decodeURIComponent r)
      else if leading_ones b = 1 \<or> 4 < leading_ones b then None
      else
        (case take_octets (leading_ones b - 1) r of
           None \<Rightarrow> None
         | Some (bs, r') \<Rightarrow>
             (case utf8_decode (b # bs) of
                None \<Rightarrow> None
              | Some cp \<Rightarrow> map_option (append (utf16_encode cp)) (decodeURIComponent r'))))"
proof -
  have "hex_octet (0x25 # tl (percent_octet b) @ r) = Some (b, r)"
    using hex_octet_percent_octet [OF assms, of r] by (simp add: percent_octet_def)
  then show ?thesis
    by (subst percent_octet_Cons) simp
qed

lemma take_octets_percent_octet:
  assumes "b < 256"
  shows "take_octets (Suc n) (percent_octet b @ r) =
     (case take_octets n r of None \<Rightarrow> None | Some (bs, r') \<Rightarrow> Some (b # bs, r'))"
  by (simp add: hex_octet_percent_octet [OF assms])

lemma div_64_64: "(n::nat) div 4096 = n div 64 div 64"
  by (simp add: div_mult2_eq)

lemma div_64_64_64: "(n::nat) div 262144 = n div 64 div 64 div 64"
  by (simp add: div_mult2_eq)

lemma utf8_value2: "(n::nat) div 64 * 64 + n mod 64 = n"
  by simp

lemma utf8_value3: "(n::nat) div 4096 * 4096 + n div 64 mod 64 * 64 + n mod 64 = n"
proof -
  define m where "m = n div 64"
  define a where "a = m div 64"
  define b where "b = m mod 64"
  have "a * 4096 + b * 64 = (a * 64 + b) * 64" by simp
  also have "a * 64 + b = m" unfolding a_def b_def by simp
  finally have "n div 4096 * 4096 + n div 64 mod 64 * 64 = n div 64 * 64"
    unfolding a_def b_def m_def div_64_64 .
  then show ?thesis by simp
qed

lemma utf8_value4:
  "(n::nat) div 262144 * 262144 + n div 4096 mod 64 * 4096 + n div 64 mod 64 * 64 + n mod 64 = n"
proof -
  define m where "m = n div 4096"
  define a where "a = m div 64"
  define b where "b = m mod 64"
  have d: "n div 262144 = n div 4096 div 64" by (simp add: div_mult2_eq)
  have "a * 262144 + b * 4096 = (a * 64 + b) * 4096" by simp
  also have "a * 64 + b = m" unfolding a_def b_def by simp
  finally have "n div 262144 * 262144 + n div 4096 mod 64 * 4096 = n div 4096 * 4096"
    unfolding a_def b_def m_def d .
  then show ?thesis using utf8_value3 [of n] by simp
qed

lemma decode_percent_utf8_1:
  assumes "cp < 0x80"
  shows "decodeURIComponent (percent_utf8 cp @ r) = map_option (Cons (of_nat cp)) (decodeURIComponent r)"
proof -
  have "cp < 256" using assms by simp
  then show ?thesis
    using assms by (simp add: percent_utf8_def utf8_encode_def decode_percent_octet leading_ones_def)
qed

lemma decode_percent_utf8_2:
  assumes "0x80 \<le> cp" and "cp < 0x800"
  shows "decodeURIComponent (percent_utf8 cp @ r) = map_option (append (utf16_encode cp)) (decodeURIComponent r)"
proof -
  let ?b0 = "0xC0 + cp div 64" and ?b1 = "0x80 + cp mod 64"
  have d: "cp div 64 < 32" using assms by simp
  have b: "?b0 < 256" "?b1 < 256" using d by simp_all
  have l: "leading_ones ?b0 = 2" using d by (simp add: leading_ones_def)
  have u: "utf8_decode [?b0, ?b1] = Some cp"
    using d assms utf8_value2 [of cp] by (simp add: is_continuation_def)
  have e: "percent_utf8 cp @ r = percent_octet ?b0 @ percent_octet ?b1 @ r"
    using assms by (simp add: percent_utf8_def utf8_encode_def)
  have t: "take_octets (Suc 0) (percent_octet ?b1 @ r) = Some ([?b1], r)"
    using b(2) by (simp only: take_octets_percent_octet) simp
  show ?thesis
    unfolding e decode_percent_octet [OF b(1)] l
    using t u by (simp del: take_octets.simps utf8_decode.simps)
qed

lemma decode_percent_utf8_3:
  assumes "0x800 \<le> cp" and "cp < 0x10000" and "\<not> (0xD800 \<le> cp \<and> cp < 0xE000)"
  shows "decodeURIComponent (percent_utf8 cp @ r) = map_option (append (utf16_encode cp)) (decodeURIComponent r)"
proof -
  let ?b0 = "0xE0 + cp div 4096" and ?b1 = "0x80 + cp div 64 mod 64" and ?b2 = "0x80 + cp mod 64"
  have d: "cp div 4096 < 16" using assms by simp
  have b: "?b0 < 256" "?b1 < 256" "?b2 < 256" using d by simp_all
  have l: "leading_ones ?b0 = 3" using d by (simp add: leading_ones_def)
  have u: "utf8_decode [?b0, ?b1, ?b2] = Some cp"
    using d assms utf8_value3 [of cp] by (simp add: is_continuation_def)
  have e: "percent_utf8 cp @ r = percent_octet ?b0 @ percent_octet ?b1 @ percent_octet ?b2 @ r"
    using assms by (simp add: percent_utf8_def utf8_encode_def)
  have t: "take_octets (Suc (Suc 0)) (percent_octet ?b1 @ percent_octet ?b2 @ r) = Some ([?b1, ?b2], r)"
    using b by (simp only: take_octets_percent_octet) simp
  have n: "3 - 1 = Suc (Suc 0)" by simp
  show ?thesis
    unfolding e decode_percent_octet [OF b(1)] l n
    using t u by (simp del: take_octets.simps utf8_decode.simps)
qed

lemma decode_percent_utf8_4:
  assumes "0x10000 \<le> cp" and "cp < 0x110000"
  shows "decodeURIComponent (percent_utf8 cp @ r) = map_option (append (utf16_encode cp)) (decodeURIComponent r)"
proof -
  let ?b0 = "0xF0 + cp div 262144" and ?b1 = "0x80 + cp div 4096 mod 64"
    and ?b2 = "0x80 + cp div 64 mod 64" and ?b3 = "0x80 + cp mod 64"
  have d: "cp div 262144 < 5" using assms by simp
  have b: "?b0 < 256" "?b1 < 256" "?b2 < 256" "?b3 < 256" using d by simp_all
  have l: "leading_ones ?b0 = 4" using d by (simp add: leading_ones_def)
  have u: "utf8_decode [?b0, ?b1, ?b2, ?b3] = Some cp"
    using d assms utf8_value4 [of cp] by (simp add: is_continuation_def)
  have e: "percent_utf8 cp @ r
      = percent_octet ?b0 @ percent_octet ?b1 @ percent_octet ?b2 @ percent_octet ?b3 @ r"
    using assms by (simp add: percent_utf8_def utf8_encode_def)
  have t: "take_octets (Suc (Suc (Suc 0))) (percent_octet ?b1 @ percent_octet ?b2 @ percent_octet ?b3 @ r)
      = Some ([?b1, ?b2, ?b3], r)"
    using b by (simp only: take_octets_percent_octet) simp
  have n: "4 - 1 = Suc (Suc (Suc 0))" by simp
  show ?thesis
    unfolding e decode_percent_octet [OF b(1)] l n
    using t u by (simp del: take_octets.simps utf8_decode.simps)
qed

lemma surrogate_unat:
  "is_high_surrogate c \<longleftrightarrow> 0xD800 \<le> unat c \<and> unat c \<le> 0xDBFF"
  "is_low_surrogate c \<longleftrightarrow> 0xDC00 \<le> unat c \<and> unat c \<le> 0xDFFF"
  by (simp_all add: is_high_surrogate_def is_low_surrogate_def word_le_nat_alt)

lemma utf16_encode_unit: "utf16_encode (unat (c :: jschar)) = [c]"
  using unat_jschar_less [of c] by (simp add: utf16_encode_def)

lemma pair_code_point_range:
  assumes "is_high_surrogate c" and "is_low_surrogate d"
  shows "0x10000 \<le> pair_code_point c d" and "pair_code_point c d < 0x110000"
  using assms by (auto simp: pair_code_point_def surrogate_unat)

lemma utf16_encode_pair:
  assumes "is_high_surrogate c" and "is_low_surrogate d"
  shows "utf16_encode (pair_code_point c d) = [c, d]"
proof -
  define h where "h = unat c - 0xD800"
  define l where "l = unat d - 0xDC00"
  have hl: "l < 0x400" "unat c = 0xD800 + h" "unat d = 0xDC00 + l"
    using assms by (auto simp: h_def l_def surrogate_unat)
  have p: "pair_code_point c d - 0x10000 = h * 0x400 + l"
    by (simp add: pair_code_point_def h_def l_def)
  have "(h * 0x400 + l) div 0x400 = h" "(h * 0x400 + l) mod 0x400 = l"
    using hl(1) by simp_all
  then have "of_nat (0xD800 + (pair_code_point c d - 0x10000) div 0x400) = (of_nat (unat c) :: jschar)"
    "of_nat (0xDC00 + (pair_code_point c d - 0x10000) mod 0x400) = (of_nat (unat d) :: jschar)"
    unfolding p hl(2,3) by simp_all
  then show ?thesis
    using pair_code_point_range [OF assms] by (simp add: utf16_encode_def del: of_nat_add)
qed

lemma append_singleton: "append [c] = Cons c"
  by (rule ext) simp

lemma unreserved_not_percent: "is_unreserved c \<Longrightarrow> c \<noteq> 0x25"
  by (auto simp: is_unreserved_def)

lemma decode_percent_utf8_unit:
  assumes "\<not> is_high_surrogate c" and "\<not> is_low_surrogate c"
  shows "decodeURIComponent (percent_utf8 (unat c) @ r) = map_option (Cons c) (decodeURIComponent r)"
proof -
  let ?n = "unat c"
  have ns: "\<not> (0xD800 \<le> ?n \<and> ?n < 0xE000)"
    using assms by (auto simp: surrogate_unat)
  consider "?n < 0x80" | "0x80 \<le> ?n" "?n < 0x800" | "0x800 \<le> ?n" "?n < 0x10000"
    using unat_jschar_less [of c] by linarith
  then show ?thesis
  proof cases
    case 1
    then show ?thesis by (simp add: decode_percent_utf8_1)
  next
    case 2
    then show ?thesis
      by (simp add: decode_percent_utf8_2 utf16_encode_unit append_singleton)
  next
    case 3
    then show ?thesis
      using ns by (simp add: decode_percent_utf8_3 utf16_encode_unit append_singleton)
  qed
qed

lemma decode_percent_utf8_pair:
  assumes "is_high_surrogate c" and "is_low_surrogate d"
  shows "decodeURIComponent (percent_utf8 (pair_code_point c d) @ r)
           = map_option (append [c, d]) (decodeURIComponent r)"
  using pair_code_point_range [OF assms]
  by (simp add: decode_percent_utf8_4 utf16_encode_pair [OF assms])

lemma decodeURIComponent_encodeURIComponent:
  "encodeURIComponent s = Some e \<Longrightarrow> decodeURIComponent e = Some s"
proof (induction s arbitrary: e rule: encodeURIComponent.induct)
  case 1
  then show ?case by simp
next
  case (2 c cs)
  show ?case
  proof (cases "is_unreserved c")
    case True
    with 2(4) obtain e' where e': "encodeURIComponent cs = Some e'" "e = c # e'"
      by auto
    then show ?thesis
      using 2(1) [OF True e'(1)] unreserved_not_percent [OF True] by simp
  next
    case unres: False
    show ?thesis
    proof (cases "is_low_surrogate c")
      case True
      with 2(4) unres show ?thesis by simp
    next
      case low: False
      show ?thesis
      proof (cases "is_high_surrogate c")
        case True
        with 2(4) unres low obtain d ds e' where
          d: "cs = d # ds" "is_low_surrogate d" "encodeURIComponent ds = Some e'"
            "e = percent_utf8 (pair_code_point c d) @ e'"
          by (auto split: list.splits if_splits)
        have "decodeURIComponent e' = Some ds"
          using 2(2) [OF unres low True d(1) d(2) d(3)] .
        then show ?thesis
          unfolding d(4) d(1) by (simp add: decode_percent_utf8_pair [OF True d(2)])
      next
        case False
        with 2(4) unres low obtain e' where
          e': "encodeURIComponent cs = Some e'" "e = percent_utf8 (unat c) @ e'"
          by auto
        have "decodeURIComponent e' = Some cs"
          using 2(3) [OF unres low False e'(1)] .
        then show ?thesis
          unfolding e'(2) by (simp add: decode_percent_utf8_unit [OF False low])
      qed
    qed
  qed
qed

text \<open>Well-formed UTF-16: every surrogate is part of a pair.\<close>

fun well_formed :: "jsstring \<Rightarrow> bool" where
  "well_formed [] = True"
| "well_formed [c] = (\<not> is_high_surrogate c \<and> \<not> is_low_surrogate c)"
| "well_formed (c # d # ds) =
     (if is_high_surrogate c then is_low_surrogate d \<and> well_formed ds
      else \<not> is_low_surrogate c \<and> well_formed (d # ds))"

lemma high_not_low: "is_high_surrogate c \<Longrightarrow> \<not> is_low_surrogate c"
  by (auto simp: surrogate_unat)

lemma unreserved_not_surrogate:
  "is_unreserved c \<Longrightarrow> \<not> is_high_surrogate c" "is_unreserved c \<Longrightarrow> \<not> is_low_surrogate c"
  by (auto simp: is_unreserved_def is_high_surrogate_def is_low_surrogate_def word_le_nat_alt)

lemma encodeURIComponent_well_formed:
  "well_formed s \<Longrightarrow> \<exists>e. encodeURIComponent s = Some e"
proof (induction s rule: well_formed.induct)
  case 1
  then show ?case by simp
next
  case (2 c)
  then show ?case by simp
next
  case (3 c d ds)
  show ?case
  proof (cases "is_high_surrogate c")
    case True
    with 3 obtain e where "encodeURIComponent ds = Some e" by auto
    then show ?thesis
      using True 3(3) high_not_low [OF True] unreserved_not_surrogate(1) [of c] by auto
  next
    case False
    with 3 obtain e where "encodeURIComponent (d # ds) = Some e" by auto
    then show ?thesis
      using False 3(3) by (auto simp del: encodeURIComponent.simps(2) simp add: encodeURIComponent.simps(2) [of c])
  qed
qed

subsection \<open>The cursor\<close>

lemma well_formed_Cons:
  "\<not> is_high_surrogate c \<Longrightarrow> \<not> is_low_surrogate c \<Longrightarrow> well_formed (c # s) = well_formed s"
  by (cases s) simp_all

lemma well_formed_append:
  "well_formed a \<Longrightarrow> well_formed b \<Longrightarrow> well_formed (a @ b)"
proof (induction a rule: well_formed.induct)
  case 1
  then show ?case by simp
next
  case (2 c)
  then show ?case by (simp add: well_formed_Cons)
next
  case (3 c d ds)
  then show ?case by (simp split: if_splits)
qed

definition ascii :: "jschar \<Rightarrow> bool" where
  "ascii c \<longleftrightarrow> unat c < 0x80"

lemma ascii_not_surrogate: "ascii c \<Longrightarrow> \<not> is_high_surrogate c \<and> \<not> is_low_surrogate c"
  by (auto simp: ascii_def surrogate_unat)

lemma well_formed_ascii: "list_all ascii s \<Longrightarrow> well_formed s"
  by (induction s) (simp_all add: well_formed_Cons ascii_not_surrogate)

lemma ascii_hex_lower: "d < 16 \<Longrightarrow> ascii (hex_lower d)"
  by (simp add: ascii_def unat_hex_lower)

lemma well_formed_unicode_escape: "well_formed (unicode_escape c)"
proof -
  let ?n = "unat c"
  have b: "?n div 4096 < 16" "?n div 256 mod 16 < 16" "?n div 16 mod 16 < 16" "?n mod 16 < 16"
    using unat_jschar_less [of c] by simp_all
  have "list_all ascii (unicode_escape c)"
    using b by (simp add: unicode_escape_def ascii_hex_lower) (simp add: ascii_def)
  then show ?thesis by (rule well_formed_ascii)
qed

lemma well_formed_escape_unit: "well_formed (escape_unit c)"
proof -
  consider (tab) "c = 0x08 \<or> c = 0x09 \<or> c = 0x0A \<or> c = 0x0C \<or> c = 0x0D \<or> c = 0x22 \<or> c = 0x5C"
    | (uni) "\<not> (c = 0x08 \<or> c = 0x09 \<or> c = 0x0A \<or> c = 0x0C \<or> c = 0x0D \<or> c = 0x22 \<or> c = 0x5C)"
        "c < 0x20 \<or> is_high_surrogate c \<or> is_low_surrogate c"
    | (lit) "\<not> (c = 0x08 \<or> c = 0x09 \<or> c = 0x0A \<or> c = 0x0C \<or> c = 0x0D \<or> c = 0x22 \<or> c = 0x5C)"
        "\<not> (c < 0x20 \<or> is_high_surrogate c \<or> is_low_surrogate c)"
    by blast
  then show ?thesis
  proof cases
    case tab
    then have "list_all ascii (escape_unit c)"
      by (auto simp: escape_unit_def ascii_def)
    then show ?thesis by (rule well_formed_ascii)
  next
    case uni
    then show ?thesis
      by (simp add: escape_unit_def well_formed_unicode_escape)
  next
    case lit
    then show ?thesis
      by (simp add: escape_unit_def)
  qed
qed

lemma well_formed_json_escape: "well_formed (json_escape s)"
proof (induction s rule: json_escape.induct)
  case 1
  then show ?case by simp
next
  case (2 c)
  then show ?case by (simp add: well_formed_escape_unit)
next
  case (3 c d ds)
  then show ?case
    by (auto simp: well_formed_append well_formed_escape_unit simp del: well_formed.simps(3) json_escape.simps
        simp add: well_formed.simps(3) [of c d] json_escape.simps(3) [of c d])
qed

lemma well_formed_json_quote: "well_formed (json_quote s)"
proof -
  have q: "well_formed [0x22]" by (simp add: is_high_surrogate_def is_low_surrogate_def)
  have "well_formed ([0x22] @ json_escape s @ [0x22])"
    by (intro well_formed_append q well_formed_json_escape)
  then show ?thesis by (simp add: json_quote_def)
qed

lemma well_formed_members: "well_formed (stringify_members k)"
proof (induction k rule: stringify_members.induct)
  case 1
  then show ?case by simp
next
  case (2 a v)
  have c: "well_formed [0x3A]" by (simp add: is_high_surrogate_def is_low_surrogate_def)
  have "well_formed (json_quote a @ [0x3A] @ json_quote v)"
    by (intro well_formed_append c well_formed_json_quote)
  then show ?case by simp
next
  case (3 a v m ms)
  have c: "well_formed [0x3A]" "well_formed [0x2C]"
    by (simp_all add: is_high_surrogate_def is_low_surrogate_def)
  have "well_formed (json_quote a @ [0x3A] @ json_quote v @ [0x2C] @ stringify_members (m # ms))"
    by (intro well_formed_append c well_formed_json_quote 3)
  then show ?case by simp
qed

lemma well_formed_stringify_key: "well_formed (JSON_stringify_key k)"
proof -
  have c: "well_formed [0x7B]" "well_formed [0x7D]"
    by (simp_all add: is_high_surrogate_def is_low_surrogate_def)
  have "well_formed ([0x7B] @ stringify_members k @ [0x7D])"
    by (intro well_formed_append c well_formed_members)
  then show ?thesis by (simp add: JSON_stringify_key_def)
qed

lemma cursor_round_trip_aux:
  assumes "distinct (map fst k)" and "k \<noteq> []"
  shows "\<exists>c. encode_lastKey (Some k) = Some c \<and> c \<noteq> []
           \<and> parse_lastKey (Some c) = Some (key_to_json k)"
proof -
  obtain c where c: "encodeURIComponent (JSON_stringify_key k) = Some c"
    using encodeURIComponent_well_formed [OF well_formed_stringify_key] by blast
  have d: "decodeURIComponent c = Some (JSON_stringify_key k)"
    using c by (rule decodeURIComponent_encodeURIComponent)
  have ne: "JSON_stringify_key k \<noteq> []" by (simp add: JSON_stringify_key_def)
  have cne: "c \<noteq> []" using d ne by auto
  have "parse_lastKey (Some c) = Some (key_to_json k)"
    using cne d ne JSON_parse_stringify_key [OF assms(1)] by (simp add: parse_lastKey_def)
  then show ?thesis
    using c cne assms(2) by (simp add: encode_lastKey_def)
qed

subsection \<open>One page, and the walk over all pages\<close>

lemma start_position_key_of:
  "start_position (key_to_json (key_of p x)) = Some (sort_position x)"
  by (simp add: key_to_json_def key_of_def sort_position_def js_def)

lemma key_of_distinct: "distinct (map fst (key_of p x))" "key_of p x \<noteq> []"
  by (simp_all add: key_of_def js_def)

lemma is_start_key_key_of: "is_start_key (Some (key_to_json (key_of p x)))"
  by (simp add: key_to_json_def key_of_def)

lemma filter_after_position:
  fixes f :: "'a \<Rightarrow> 'b::order"
  assumes "sorted_wrt (<) (map f (pre @ x # suf))"
  shows "filter (\<lambda>c. f x < f c) (pre @ x # suf) = suf"
proof -
  have a: "\<forall>c\<in>set pre. f c < f x" and b: "\<forall>c\<in>set suf. f x < f c"
    using assms by (auto simp: sorted_wrt_append)
  have "filter (\<lambda>c. f x < f c) pre = []"
    using a by (auto simp: filter_empty_conv dest: less_asym)
  moreover have "filter (\<lambda>c. f x < f c) suf = suf"
    using b by (simp add: filter_id_conv)
  ultimately show ?thesis by simp
qed

lemma partition_strict:
  assumes "distinct (map c_id table)"
  shows "sorted_wrt (<) (map sort_position (partition_of table p))"
proof -
  let ?xs = "filter (\<lambda>c. c_postId c = JStr p) table"
  have "inj_on c_id (set table)" "distinct table"
    using assms by (simp_all add: distinct_map)
  then have "inj_on sort_position (set ?xs)"
    by (auto simp: inj_on_def sort_position_def)
  moreover have "distinct ?xs" using \<open>distinct table\<close> by simp
  ultimately have "distinct (map sort_position (sort_key sort_position ?xs))"
    by (simp add: distinct_map)
  moreover have "sorted (map sort_position (sort_key sort_position ?xs))"
    by (rule sorted_sort_key)
  ultimately show ?thesis
    by (simp add: partition_of_def strict_sorted_iff)
qed

lemma parse_cursor_after:
  assumes "seen \<noteq> []"
  shows "\<exists>c. cursor_after p seen = Some c \<and> c \<noteq> []
           \<and> parse_lastKey (Some c) = Some (key_to_json (key_of p (last seen)))"
  using cursor_round_trip_aux [OF key_of_distinct, of p "last seen"] assms
  by (simp add: cursor_after_def)

text \<open>The rows the modelled store scans for a request that resumes after \<open>seen\<close>.\<close>

lemma dbQueryParams_cursor_after:
  assumes "partition_of table p = seen @ rest" and "distinct (map c_id table)"
  shows "(case q_ExclusiveStartKey (dbQueryParams tn p \<lparr>qp_limit = l, qp_lastKey = cursor_after p seen\<rparr>) of
            None \<Rightarrow> Some (partition_of table p)
          | Some k \<Rightarrow>
              (case start_position k of
                 None \<Rightarrow> None
               | Some pos \<Rightarrow> Some (filter (\<lambda>c. pos < sort_position c) (partition_of table p))))
         = Some rest"
proof (cases "seen = []")
  case True
  then show ?thesis
    using assms(1) by (simp add: dbQueryParams_def cursor_after_def parse_lastKey_def)
next
  case False
  then obtain c where c: "cursor_after p seen = Some c"
    "parse_lastKey (Some c) = Some (key_to_json (key_of p (last seen)))"
    using parse_cursor_after by blast
  from False obtain pre x where s: "seen = pre @ [x]"
    by (metis append_butlast_last_id)
  have "sorted_wrt (<) (map sort_position (pre @ x # rest))"
    using partition_strict [OF assms(2), of p] assms(1) s by simp
  then have "filter (\<lambda>c. sort_position x < sort_position c) (pre @ x # rest) = rest"
    by (rule filter_after_position)
  then show ?thesis
    using c assms(1) s
    by (simp add: dbQueryParams_def is_start_key_key_of start_position_key_of)
qed

lemma getComments_page:
  assumes "COMMENTS_TABLE_NAME env = Some tn" and "tn \<noteq> []" and "p \<noteq> []"
    and "parseInt (Some limit) = Some L" and "1 \<le> L"
    and "distinct (map c_id table)" and "partition_of table p = seen @ rest"
  shows "getComments env (ddb_query table) (page_request p (Some limit) (cursor_after p seen))
     = \<lparr>statusCode = 200,
        body = CommentsBody (take (nat L) rest)
          (if nat L < length rest then cursor_after p (seen @ take (nat L) rest) else None)\<rparr>"
proof -
  let ?q = "dbQueryParams tn p \<lparr>qp_limit = Some limit, qp_lastKey = cursor_after p seen\<rparr>"
  have l: "q_Limit ?q = L" "q_postId ?q = p"
    using assms(4,5) by (simp_all add: dbQueryParams_def Let_def)
  have pos: "0 < nat L" using assms(5) by simp
  have t: "take (nat L) rest \<noteq> [] \<and> length (take (nat L) rest) < length rest \<longleftrightarrow> nat L < length rest"
    using pos by (cases rest) auto
  have "ddb_query table ?q = Inr \<lparr>Items = Some (take (nat L) rest),
      LastEvaluatedKey = (if nat L < length rest then Some (key_of p (last (take (nat L) rest))) else None)\<rparr>"
    unfolding ddb_query_def l dbQueryParams_cursor_after [OF assms(7,6)]
    using t by (simp add: Let_def)
  moreover have "nat L < length rest \<Longrightarrow> take (nat L) rest \<noteq> []"
    using pos by (cases rest) auto
  ultimately show ?thesis
    using assms(1,2,3)
    by (simp add: getComments_def getComments_try_def page_request_def cursor_after_def
        encode_lastKey_def)
qed



section \<open>Properties of \<open>createComment\<close>\<close>

lemmas createComment_defs =
  createComment_def createComment_try_def validation_error_def internal_error_def

lemma table_put_accepts: "\<exists>db'. table_put cmd db = Inr db'"
  by (simp add: table_put_def)

text \<open>Creating comments keeps the ids of the table distinct, whatever id is drawn.\<close>

lemma createComment_keeps_ids_distinct:
  assumes "distinct (map c_id db)"
  shows "distinct (map c_id (snd (createComment env table_put cid ts event db)))"
proof -
  have f: "distinct (map c_id (filter (\<lambda>c. c_id c \<noteq> cid) db))"
    using assms by (rule distinct_map_filter)
  have "snd (createComment env table_put cid ts event db) = db
      \<or> (\<exists>x. c_id x = cid \<and> snd (createComment env table_put cid ts event db)
            = filter (\<lambda>c. c_id c \<noteq> cid) db @ [x])"
    by (auto simp: createComment_def createComment_try_def Let_def table_put_def
        split: option.splits json.splits sum.splits if_splits)
  then show ?thesis
    using assms f by auto
qed

text \<open>
  C3, as stated: a text whose length after trimming is exactly 280 is accepted. The handler
  compares the length before trimming with the limit, so a 280-character text with one
  leading space is refused.
\<close>

theorem createComment_post_trim_280_counterexample:
  \<open>length (trim (0x20 # replicate 280 0x61)) = 280
   \<and> createComment example_env table_put example_id example_time
        (create_request (js ''{"postId":"p1","text":"'' @ 0x20 # replicate 280 0x61 @ js ''"}'')) []
      = (validation_error ''Comment text cannot exceed 280 characters'', [])\<close>
  by code_simp

text \<open>
  C3, amended. For a request that gets as far as the text checks (a parsable body with a
  truthy \<open>postId\<close> and a string \<open>text\<close>), with the table name set, a caller identity and a
  store that accepts the write: the comment is created (201) exactly when the trimmed text
  is non-empty and the text, before trimming, has at most 280 code units. Every other text
  (empty, whitespace only, or longer than 280 before trimming, which includes every text
  longer than 280 after trimming) is refused with a ValidationError and nothing is written.
\<close>

theorem createComment_text_boundary:
  fixes send :: "put_command \<Rightarrow> 'db \<Rightarrow> js_error + 'db" and env cid ts db
  assumes "ev_body event = Some b" and "JSON_parse b = Some parsed" and "parsed \<noteq> JNull"
    and "truthy_opt (get_prop parsed (js ''postId''))"
    and "get_prop parsed (js ''text'') = Some (JStr t)"
    and "COMMENTS_TABLE_NAME env = Some tn" and "tn \<noteq> []" and "ev_user event = Some u"
    and "\<And>cmd. \<exists>db'. send cmd db = Inr db'"
  defines "result \<equiv> createComment env send cid ts event db"
  shows "(statusCode (fst result) = 201 \<longleftrightarrow> trim t \<noteq> [] \<and> length t \<le> 280)
       \<and> (trim t = [] \<or> 280 < length t \<longrightarrow> (\<exists>msg. fst result = validation_error msg) \<and> snd result = db)
       \<and> (280 < length (trim t) \<longrightarrow> (\<exists>msg. fst result = validation_error msg) \<and> snd result = db)"
proof -
  have ne: "b \<noteq> []" using assms(2) by auto
  have pt: "truthy_opt (get_prop parsed (js ''text'')) \<longleftrightarrow> t \<noteq> []"
    using assms(5) by simp
  obtain p where p: "get_prop parsed (js ''postId'') = Some p"
    using assms(4) by (cases "get_prop parsed (js ''postId'')") auto
  have tl: "280 < length (trim t) \<Longrightarrow> 280 < length t"
    using length_trim_le [of t] by simp
  have t0: "t = [] \<Longrightarrow> trim t = []" by simp
  show ?thesis
  proof (cases "trim t = []")
    case True
    then show ?thesis
      using assms(1,2,3,4,5) ne p unfolding result_def
      by (auto simp: createComment_defs Let_def)
  next
    case False
    then have tne: "t \<noteq> []" by auto
    show ?thesis
    proof (cases "280 < length t")
      case True
      then show ?thesis
        using assms(1,2,3,4,5) ne p False tne unfolding result_def
        by (auto simp: createComment_defs Let_def)
    next
      case False
      obtain db' where "send \<lparr>put_TableName = tn, put_Item =
           \<lparr>c_id = cid, c_postId = p, c_userId = user_id u, c_username = user_username u,
            c_text = trim t, c_createdAt = ts\<rparr>\<rparr> db = Inr db'"
        using assms(9) by blast
      then show ?thesis
        using assms(1,2,3,4,5,6,7,8) ne p False \<open>trim t \<noteq> []\<close> tne tl unfolding result_def
        by (auto simp: createComment_defs Let_def)
    qed
  qed
qed

theorem createComment_text_boundary_witness:
  \<open>statusCode (fst (createComment example_env table_put example_id example_time
      (create_request (js ''{"postId":"p1","text":"'' @ replicate 280 0x61 @ js ''"}'')) [])) = 201
   \<and> (\<exists>msg. fst (createComment example_env table_put example_id example_time
      (create_request (js ''{"postId":"p1","text":"'' @ replicate 281 0x61 @ js ''"}'')) [])
        = validation_error msg)
   \<and> (\<exists>msg. fst (createComment example_env table_put example_id example_time
      (create_request (js ''{"postId":"p1","text":" '' @ [0x5C, 0x74, 0x5C, 0x6E] @ js '' "}'')) [])
        = validation_error msg)\<close>
proof -
  let ?b1 = \<open>js ''{"postId":"p1","text":"'' @ replicate 280 0x61 @ js ''"}''\<close>
  let ?b2 = \<open>js ''{"postId":"p1","text":"'' @ replicate 281 0x61 @ js ''"}''\<close>
  let ?b3 = \<open>js ''{"postId":"p1","text":" '' @ [0x5C, 0x74, 0x5C, 0x6E] @ js '' "}''\<close>
  let ?t3 = "[0x20, 0x09, 0x0A, 0x20] :: jsstring"
  have p1: "JSON_parse ?b1 = Some (JObj [(js ''postId'', JStr (js ''p1'')), (js ''text'', JStr (replicate 280 0x61))])"
    by code_simp
  have p2: "JSON_parse ?b2 = Some (JObj [(js ''postId'', JStr (js ''p1'')), (js ''text'', JStr (replicate 281 0x61))])"
    by code_simp
  have p3: "JSON_parse ?b3 = Some (JObj [(js ''postId'', JStr (js ''p1'')), (js ''text'', JStr ?t3)])"
    by code_simp
  have g: "\<And>t. truthy_opt (get_prop (JObj [(js ''postId'', JStr (js ''p1'')), (js ''text'', JStr t)]) (js ''postId''))"
    "\<And>t. get_prop (JObj [(js ''postId'', JStr (js ''p1'')), (js ''text'', JStr t)]) (js ''text'') = Some (JStr t)"
    by (simp_all add: js_def)
  have e: "COMMENTS_TABLE_NAME example_env = Some (js ''CommentsTable'')" "js ''CommentsTable'' \<noteq> []"
    by (simp_all add: example_env_def js_def)
  have t1: "trim (replicate 280 0x61) \<noteq> []" by code_simp
  have t3: "trim ?t3 = []" by code_simp
  note th = createComment_text_boundary [where env = example_env and send = table_put
      and cid = example_id and ts = example_time and db = "[]" and u = example_user,
      OF _ _ _ g(1) g(2) e _ table_put_accepts]
  have "statusCode (fst (createComment example_env table_put example_id example_time (create_request ?b1) [])) = 201"
    using th [of "create_request ?b1" ?b1, OF _ p1] t1 by (simp add: create_request_def)
  moreover have "\<exists>msg. fst (createComment example_env table_put example_id example_time (create_request ?b2) [])
        = validation_error msg"
    using th [of "create_request ?b2" ?b2, OF _ p2] by (simp add: create_request_def)
  moreover have "\<exists>msg. fst (createComment example_env table_put example_id example_time (create_request ?b3) [])
        = validation_error msg"
    using th [of "create_request ?b3" ?b3, OF _ p3] t3 by (simp add: create_request_def)
  ultimately show ?thesis by blast
qed

text \<open>
  C5. The \<open>userId\<close> of a created comment is \<open>event.user.id\<close>, the identity the
  authentication middleware attached, and the record returned is the item that was put.
  Two request bodies whose objects agree on every property other than \<open>userId\<close> get the
  same response and leave the same store.
\<close>

theorem createComment_author:
  fixes send :: "put_command \<Rightarrow> 'db \<Rightarrow> js_error + 'db"
  shows "(createComment env send cid ts event db = (r, db') \<and> statusCode r = 201 \<longrightarrow>
           (\<exists>u c tn. ev_user event = Some u \<and> body r = CommentBody c \<and> c_userId c = user_id u
              \<and> send \<lparr>put_TableName = tn, put_Item = c\<rparr> db = Inr db'))
       \<and> (JSON_parse ba = Some (JObj ma) \<and> JSON_parse bb = Some (JObj mb)
            \<and> (\<forall>k. k \<noteq> js ''userId'' \<longrightarrow> map_of ma k = map_of mb k) \<longrightarrow>
           createComment env send cid ts (event\<lparr>ev_body := Some ba\<rparr>) db
             = createComment env send cid ts (event\<lparr>ev_body := Some bb\<rparr>) db)"
proof (intro conjI impI)
  assume a: "createComment env send cid ts event db = (r, db') \<and> statusCode r = 201"
  then show "\<exists>u c tn. ev_user event = Some u \<and> body r = CommentBody c \<and> c_userId c = user_id u
              \<and> send \<lparr>put_TableName = tn, put_Item = c\<rparr> db = Inr db'"
    by (auto simp: createComment_defs Let_def
        split: option.splits json.splits sum.splits if_splits)
next
  assume a: "JSON_parse ba = Some (JObj ma) \<and> JSON_parse bb = Some (JObj mb)
            \<and> (\<forall>k. k \<noteq> js ''userId'' \<longrightarrow> map_of ma k = map_of mb k)"
  have ne: "ba \<noteq> []" "bb \<noteq> []" using a by auto
  have k: "js ''postId'' \<noteq> js ''userId''" "js ''text'' \<noteq> js ''userId''"
    by (simp_all add: js_def)
  have "map_of ma (js ''postId'') = map_of mb (js ''postId'')"
    "map_of ma (js ''text'') = map_of mb (js ''text'')"
    using a k by blast+
  then show "createComment env send cid ts (event\<lparr>ev_body := Some ba\<rparr>) db
             = createComment env send cid ts (event\<lparr>ev_body := Some bb\<rparr>) db"
    using a ne
    by (simp add: createComment_def createComment_try_def Let_def
        split: option.splits json.splits sum.splits)
qed

theorem createComment_author_witness:
  \<open>(\<exists>c. body (fst (createComment example_env table_put example_id example_time
        (create_request (js ''{"postId":"post-456","text":"hi","userId":"malicious-user"}'')) []))
          = CommentBody c \<and> c_userId c = js ''user-123'')
   \<and> createComment example_env table_put example_id example_time
        (create_request (js ''{"postId":"post-456","text":"hi"}'')) []
     = createComment example_env table_put example_id example_time
        (create_request (js ''{"postId":"post-456","text":"hi","userId":"malicious-user"}'')) []\<close>
proof -
  let ?b1 = \<open>js ''{"postId":"post-456","text":"hi"}''\<close>
  let ?b2 = \<open>js ''{"postId":"post-456","text":"hi","userId":"malicious-user"}''\<close>
  let ?m1 = "[(js ''postId'', JStr (js ''post-456'')), (js ''text'', JStr (js ''hi''))]"
  let ?m2 = "[(js ''postId'', JStr (js ''post-456'')), (js ''text'', JStr (js ''hi'')),
              (js ''userId'', JStr (js ''malicious-user''))]"
  let ?r = "createComment example_env table_put example_id example_time (create_request ?b2) []"
  have p1: "JSON_parse ?b1 = Some (JObj ?m1)" by code_simp
  have p2: "JSON_parse ?b2 = Some (JObj ?m2)" by code_simp
  have d: "\<forall>k. k \<noteq> js ''userId'' \<longrightarrow> map_of ?m1 k = map_of ?m2 k" by simp
  have s: "statusCode (fst ?r) = 201" by code_simp
  note th = createComment_author [where env = example_env and send = table_put
      and cid = example_id and ts = example_time and db = "[]"]
  have "createComment example_env table_put example_id example_time (create_request ?b2) [] = (fst ?r, snd ?r)"
    by simp
  with s have "\<exists>u c tn. ev_user (create_request ?b2) = Some u \<and> body (fst ?r) = CommentBody c
      \<and> c_userId c = user_id u \<and> table_put \<lparr>put_TableName = tn, put_Item = c\<rparr> [] = Inr (snd ?r)"
    using th [where event = "create_request ?b2" and r = "fst ?r" and db' = "snd ?r", THEN conjunct1]
    by blast
  then have "\<exists>c. body (fst ?r) = CommentBody c \<and> c_userId c = js ''user-123''"
    by (auto simp: create_request_def example_user_def)
  moreover have "createComment example_env table_put example_id example_time (create_request ?b1) [] = ?r"
    using th [where event = "create_request ?b1" and ba = ?b1 and ma = ?m1 and bb = ?b2 and mb = ?m2,
        THEN conjunct2] p1 p2 d
    by (simp add: create_request_def)
  ultimately show ?thesis by blast
qed

text \<open>
  C6. The checks run in the order: \<open>postId\<close> missing, \<open>text\<close> missing, \<open>text\<close> only
  whitespace, \<open>text\<close> too long; the first one that fails decides the response, a 400
  ValidationError with its own message, and the store is left as it was. More generally
  every response other than 201 leaves the store unchanged.
\<close>

theorem createComment_validation_order:
  fixes send :: "put_command \<Rightarrow> 'db \<Rightarrow> js_error + 'db" and env cid ts db
  assumes "ev_body event = Some b" and "b \<noteq> []" and "JSON_parse b = Some parsed" and "parsed \<noteq> JNull"
  defines "postId \<equiv> get_prop parsed (js ''postId'')" and "text \<equiv> get_prop parsed (js ''text'')"
  defines "result \<equiv> createComment env send cid ts event db"
  shows "(\<not> truthy_opt postId \<longrightarrow> result = (validation_error ''Post ID is required'', db))
       \<and> (truthy_opt postId \<and> \<not> truthy_opt text \<longrightarrow> result = (validation_error ''Comment text is required'', db))
       \<and> (truthy_opt postId \<and> truthy_opt text \<and> text = Some (JStr t) \<and> trim t = [] \<longrightarrow>
            result = (validation_error ''Comment text cannot be empty or contain only whitespace'', db))
       \<and> (truthy_opt postId \<and> text = Some (JStr t) \<and> trim t \<noteq> [] \<and> 280 < length t \<longrightarrow>
            result = (validation_error ''Comment text cannot exceed 280 characters'', db))
       \<and> (statusCode (fst result) \<noteq> 201 \<longrightarrow> snd result = db)"
  using assms
  by (auto simp: createComment_defs Let_def split: option.splits json.splits sum.splits)

theorem createComment_validation_order_witness:
  \<open>createComment example_env table_put example_id example_time
      (create_request (js ''{"text":"This is a test comment"}'')) []
     = (validation_error ''Post ID is required'', [])
   \<and> createComment example_env table_put example_id example_time
      (create_request (js ''{"postId":"post-456"}'')) []
     = (validation_error ''Comment text is required'', [])
   \<and> createComment example_env table_put example_id example_time
      (create_request (js ''{"postId":"p1","text":"   "}'')) []
     = (validation_error ''Comment text cannot be empty or contain only whitespace'', [])
   \<and> createComment example_env table_put example_id example_time
      (create_request (js ''{"postId":"p1","text":"'' @ replicate 281 0x61 @ js ''"}'')) []
     = (validation_error ''Comment text cannot exceed 280 characters'', [])\<close>
proof -
  let ?b1 = \<open>js ''{"text":"This is a test comment"}''\<close>
  let ?b2 = \<open>js ''{"postId":"post-456"}''\<close>
  let ?b3 = \<open>js ''{"postId":"p1","text":"   "}''\<close>
  let ?b4 = \<open>js ''{"postId":"p1","text":"'' @ replicate 281 0x61 @ js ''"}''\<close>
  have p1: "JSON_parse ?b1 = Some (JObj [(js ''text'', JStr (js ''This is a test comment''))])"
    by code_simp
  have p2: "JSON_parse ?b2 = Some (JObj [(js ''postId'', JStr (js ''post-456''))])"
    by code_simp
  have p3: "JSON_parse ?b3 = Some (JObj [(js ''postId'', JStr (js ''p1'')), (js ''text'', JStr (js ''   ''))])"
    by code_simp
  have p4: "JSON_parse ?b4 = Some (JObj [(js ''postId'', JStr (js ''p1'')), (js ''text'', JStr (replicate 281 0x61))])"
    by code_simp
  have ne: "?b1 \<noteq> []" "?b2 \<noteq> []" "?b3 \<noteq> []" "?b4 \<noteq> []"
    by (simp_all add: js_def)
  have t3: "trim (js ''   '') = []" by code_simp
  have t4: "trim (replicate 281 0x61) \<noteq> []" by code_simp
  have g1: "get_prop (JObj [(js ''text'', JStr (js ''This is a test comment''))]) (js ''postId'') = None"
    by code_simp
  have g2: "get_prop (JObj [(js ''postId'', JStr (js ''post-456''))]) (js ''postId'') = Some (JStr (js ''post-456''))"
    "get_prop (JObj [(js ''postId'', JStr (js ''post-456''))]) (js ''text'') = None"
    by code_simp+
  have g3: "get_prop (JObj [(js ''postId'', JStr (js ''p1'')), (js ''text'', JStr (js ''   ''))]) (js ''postId'') = Some (JStr (js ''p1''))"
    "get_prop (JObj [(js ''postId'', JStr (js ''p1'')), (js ''text'', JStr (js ''   ''))]) (js ''text'') = Some (JStr (js ''   ''))"
    by code_simp+
  have g4: "get_prop (JObj [(js ''postId'', JStr (js ''p1'')), (js ''text'', JStr (replicate 281 0x61))]) (js ''postId'') = Some (JStr (js ''p1''))"
    "get_prop (JObj [(js ''postId'', JStr (js ''p1'')), (js ''text'', JStr (replicate 281 0x61))]) (js ''text'') = Some (JStr (replicate 281 0x61))"
    by code_simp+
  have s: "js ''post-456'' \<noteq> []" "js ''p1'' \<noteq> []" "js ''   '' \<noteq> []"
    by (simp_all add: js_def)
  note th = createComment_validation_order [where env = example_env and send = table_put
      and cid = example_id and ts = example_time and db = "[]"]
  have "createComment example_env table_put example_id example_time (create_request ?b1) []
     = (validation_error ''Post ID is required'', [])"
    using th [of "create_request ?b1" ?b1, OF _ ne(1) p1] g1
    by (simp add: create_request_def)
  moreover have "createComment example_env table_put example_id example_time (create_request ?b2) []
     = (validation_error ''Comment text is required'', [])"
    using th [of "create_request ?b2" ?b2, OF _ ne(2) p2] g2 s
    by (simp add: create_request_def)
  moreover have "createComment example_env table_put example_id example_time (create_request ?b3) []
     = (validation_error ''Comment text cannot be empty or contain only whitespace'', [])"
    using th [of "create_request ?b3" ?b3, OF _ ne(3) p3, where t = "js ''   ''"] g3 s t3
    by (simp add: create_request_def)
  moreover have "createComment example_env table_put example_id example_time (create_request ?b4) []
     = (validation_error ''Comment text cannot exceed 280 characters'', [])"
    using th [of "create_request ?b4" ?b4, OF _ ne(4) p4, where t = "replicate 281 0x61"] g4 s t4
    by (simp add: create_request_def)
  ultimately show ?thesis by blast
qed



text \<open>
  C10. A body that is a non-empty string but not JSON makes \<open>JSON.parse\<close> throw; the
  \<open>catch\<close> answers 500 InternalServerError and the store is untouched. A missing body
  (and likewise the empty string, which is falsy) is answered 400 ValidationError
  "Missing request body" before anything is parsed or validated.
\<close>

theorem createComment_unparsable_body:
  fixes send :: "put_command \<Rightarrow> 'db \<Rightarrow> js_error + 'db"
  shows "(ev_body event = Some b \<and> b \<noteq> [] \<and> JSON_parse b = None \<longrightarrow>
            createComment env send cid ts event db = (internal_error ''Error creating comment'' SyntaxError, db))
       \<and> (ev_body event = None \<or> ev_body event = Some [] \<longrightarrow>
            createComment env send cid ts event db = (validation_error ''Missing request body'', db))"
  by (auto simp: createComment_defs)

lemma parse_invalid_json: \<open>JSON_parse (js ''invalid-json{'') = None\<close>
  by code_simp

theorem createComment_unparsable_body_witness:
  \<open>createComment example_env table_put (js ''comment-789'') (js ''2024-01-01T10:00:00.000Z'')
      (create_request (js ''invalid-json{'')) []
     = (internal_error ''Error creating comment'' SyntaxError, [])
   \<and> createComment example_env table_put (js ''comment-789'') (js ''2024-01-01T10:00:00.000Z'')
      \<lparr>ev_body = None, ev_user = Some example_user\<rparr> []
     = (validation_error ''Missing request body'', [])\<close>
proof -
  have ne: "js ''invalid-json{'' \<noteq> []" by (simp add: js_def)
  show ?thesis
    using createComment_unparsable_body [of "create_request (js ''invalid-json{'')" "js ''invalid-json{''"
        example_env table_put "js ''comment-789''" "js ''2024-01-01T10:00:00.000Z''" "[]"]
      createComment_unparsable_body [of "\<lparr>ev_body = None, ev_user = Some example_user\<rparr>" "[]"
        example_env table_put "js ''comment-789''" "js ''2024-01-01T10:00:00.000Z''" "[]"]
      ne parse_invalid_json
    by (simp add: create_request_def)
qed


section \<open>Properties of \<open>getComments\<close>\<close>




text \<open>
  C2. When the comments still to be delivered (all of the post's comments on a first
  call, those after the cursor otherwise) are exactly as many as the limit, the page holds
  all of them and \<open>lastKey\<close> is \<open>null\<close>: the store, as the specification describes it,
  signals more results only when more items exist.
\<close>

theorem exact_page_boundary:
  assumes "COMMENTS_TABLE_NAME env = Some tn" and "tn \<noteq> []" and "p \<noteq> []"
    and "distinct (map c_id table)"
    and "partition_of table p = seen @ rest" and "rest \<noteq> []"
    and "parseInt (Some limit) = Some (int (length rest))"
  shows "getComments env (ddb_query table) (page_request p (Some limit) (cursor_after p seen))
           = \<lparr>statusCode = 200, body = CommentsBody rest None\<rparr>"
proof -
  have "1 \<le> int (length rest)" using assms(6) by (cases rest) simp_all
  from getComments_page [OF assms(1,2,3,7) this assms(4,5)]
  show ?thesis by simp
qed

theorem exact_page_boundary_witness:
  "getComments example_env (ddb_query boundary_table) (page_request (js ''p2'') (Some (js ''5'')) None)
     = \<lparr>statusCode = 200, body = CommentsBody boundary_table None\<rparr>
   \<and> getComments example_env (ddb_query boundary_table)
       (page_request (js ''p2'') (Some (js ''3'')) (cursor_after (js ''p2'') (take 2 boundary_table)))
     = \<lparr>statusCode = 200, body = CommentsBody (drop 2 boundary_table) None\<rparr>"
proof -
  have e: "COMMENTS_TABLE_NAME example_env = Some (js ''CommentsTable'')" "js ''CommentsTable'' \<noteq> []"
    "js ''p2'' \<noteq> []"
    by (simp_all add: example_env_def js_def)
  have d: "distinct (map c_id boundary_table)" by code_simp
  have p: "partition_of boundary_table (js ''p2'') = boundary_table" by code_simp
  have a: "partition_of boundary_table (js ''p2'') = [] @ boundary_table"
    and b: "partition_of boundary_table (js ''p2'') = take 2 boundary_table @ drop 2 boundary_table"
    using p by simp_all
  have ne: "boundary_table \<noteq> []" "drop 2 boundary_table \<noteq> []" by code_simp+
  have l: "parseInt (Some (js ''5'')) = Some (int (length boundary_table))"
    "parseInt (Some (js ''3'')) = Some (int (length (drop 2 boundary_table)))"
    by code_simp+
  show ?thesis
    using exact_page_boundary [OF e d a ne(1) l(1)] exact_page_boundary [OF e d b ne(2) l(2)]
    by (simp add: cursor_after_def)
qed




text \<open>
  The limit sent to the store: 50 when \<open>limit\<close> is absent, not a number or zero;
  otherwise the parsed number, whatever its sign.
\<close>

lemma dbQueryParams_limit:
  "q_Limit (dbQueryParams tn p \<lparr>qp_limit = l, qp_lastKey = k\<rparr>)
     = (case parseInt l of None \<Rightarrow> 50 | Some n \<Rightarrow> if n = 0 then 50 else n)"
  by (simp add: dbQueryParams_def Let_def)

text \<open>
  C7, at a failing input: \<open>parseInt("-10")\<close> is \<open>-10\<close>, which is truthy, so the fallback
  \<open>|| 50\<close> does not apply and the query carries \<open>Limit = -10\<close>.
\<close>

theorem negative_limit_reaches_store:
  "q_Limit (dbQueryParams (js ''CommentsTable'') (js ''post-123'')
      \<lparr>qp_limit = Some (js ''-10''), qp_lastKey = None\<rparr>) = - 10"
  by code_simp

text \<open>
  C9. For every key the store can return (a non-empty object of string attributes), the
  cursor is encoded without error, and decoding it (lines 42 to 54) gives back the same
  object, which passes the guard and is the \<open>ExclusiveStartKey\<close> of the next query.
\<close>

theorem cursor_round_trip:
  assumes "distinct (map fst k)" and "k \<noteq> []"
  shows "\<exists>c. encode_lastKey (Some k) = Some c
           \<and> parse_lastKey (Some c) = Some (key_to_json k)
           \<and> q_ExclusiveStartKey (dbQueryParams tn p \<lparr>qp_limit = l, qp_lastKey = Some c\<rparr>)
               = Some (key_to_json k)"
proof -
  obtain c where c: "encode_lastKey (Some k) = Some c" "parse_lastKey (Some c) = Some (key_to_json k)"
    using cursor_round_trip_aux [OF assms] by blast
  have "is_start_key (Some (key_to_json k))"
    using assms(2) by (simp add: key_to_json_def)
  then show ?thesis
    using c by (simp add: dbQueryParams_def Let_def)
qed

theorem cursor_round_trip_witness:
  \<open>encode_lastKey (Some example_key)
     = Some (js ''%7B%22id%22%3A%22comment-1%22%2C%22postId%22%3A%22post-123%22%2C%22createdAt%22%3A%222024-01-01T10%3A00%3A00.000Z%22%7D'')
   \<and> parse_lastKey (Some (js ''%7B%22id%22%3A%22comment-1%22%2C%22postId%22%3A%22post-123%22%2C%22createdAt%22%3A%222024-01-01T10%3A00%3A00.000Z%22%7D''))
     = Some (JObj [(js ''id'', JStr (js ''comment-1'')), (js ''postId'', JStr (js ''post-123'')),
                   (js ''createdAt'', JStr (js ''2024-01-01T10:00:00.000Z''))])\<close>
proof -
  have e: "encode_lastKey (Some example_key)
     = Some (js ''%7B%22id%22%3A%22comment-1%22%2C%22postId%22%3A%22post-123%22%2C%22createdAt%22%3A%222024-01-01T10%3A00%3A00.000Z%22%7D'')"
    by code_simp
  have d: "distinct (map fst example_key)" "example_key \<noteq> []" by code_simp+
  have k: "key_to_json example_key
     = JObj [(js ''id'', JStr (js ''comment-1'')), (js ''postId'', JStr (js ''post-123'')),
                   (js ''createdAt'', JStr (js ''2024-01-01T10:00:00.000Z''))]"
    by (simp add: example_key_def key_of_def key_to_json_def example_comment_def)
  show ?thesis
    using cursor_round_trip [OF d, of "js ''CommentsTable''" "js ''post-123''" None] e k by auto
qed


end
